theory Spec2Isabelle
  imports Complex_Main
begin

section \<open>Data model of the live client\<close>

text \<open>
  The embedding follows the class \<open>GenAILiveClient\<close>. Its private fields are the first
  ten fields of the record \<open>client\<close>; the remaining fields are the parts of the host
  environment that the class acts on: the durable browser storage, the host's table of
  pending timers, the calls made on the transport, the opens that have not settled yet
  with what waits for each, and the events handed to the emitter.

  JavaScript values: a \<open>string | null\<close> is a \<open>string option\<close>, an optional property is an
  option, a close code is a natural number, a delay in milliseconds is a real number
  (the rounding of floating-point arithmetic is not modelled).
  An \<open>ArrayBuffer\<close> is the list of its bytes.
\<close>

type_synonym bytes = "nat list"
type_synonym live_config = string

datatype conn_status = Connected | Disconnected | Connecting

record session_resumption_update =
  newHandle :: "string option"
  resumable :: bool

record go_away =
  timeLeft :: nat
  goAwayReason :: "string option"

record blob =
  mimeType :: "string option"
  data :: "string option"

record part =
  ptext :: "string option"
  inlineData :: "blob option"

record content =
  parts :: "part list option"

record server_content =
  interrupted :: "bool option"
  turnComplete :: "bool option"
  generationComplete :: "bool option"
  modelTurn :: "content option"

text \<open>
  The handler tests \<open>'sessionResumptionUpdate' in message\<close>, which is true also for a
  property that is present with the value \<open>undefined\<close>; the other properties are tested
  for truthiness, so that for them absent and \<open>undefined\<close> coincide.
\<close>

datatype 'a property = Absent | Undefined | Present 'a

record server_message =
  sessionResumptionUpdate :: "session_resumption_update property"
  goAway :: "go_away option"
  setupComplete :: "unit option"
  toolCall :: "string list option"
  toolCallCancellation :: "string list option"
  serverContent :: "server_content option"

record close_event =
  code :: nat
  reason :: string
  wasClean :: bool

text \<open>
  The events of \<open>LiveClientEventTypes\<close>. A log entry is represented by its \<open>type\<close>
  string; its date and its message text are not modelled.
\<close>

datatype event =
    Audio bytes
  | Close close_event
  | Content server_content
  | Error string
  | Interrupted
  | Log string
  | Open
  | SetupComplete
  | ToolCall "string list"
  | ToolCallCancellation "string list"
  | TurnComplete
  | SessionResumptionUpdate session_resumption_update
  | GoAway go_away
  | GenerationComplete

datatype exn =
    ListenerError event
  | TypeError
  | DecodeError
  | TransportError string

datatype timer = ReconnectTimer real | KeepAliveTimer nat

datatype transport_call =
    OpenCall string live_config "string option"
  | CloseCall nat
  | HeartbeatCall nat

text \<open>
  An \<open>async\<close> method is suspended at \<open>await this.client.live.connect(...)\<close> until the
  transport settles the open; other handlers run in between. What waits for an open is
  either a call of \<open>connect\<close> with its \<open>isReconnect\<close> flag, or a call of \<open>_reconnect\<close>
  that awaits its \<open>connect(model, config, true)\<close>. \<open>Done b\<close> is a \<open>connect\<close> that has
  returned \<open>b\<close> without reaching the await, \<open>Pending p\<close> one that is suspended on the
  open \<open>p\<close>.
\<close>

datatype awaiting = AwaitConnect bool | AwaitReconnect

datatype started = Done bool | Pending nat

record client =
  sessionHandle :: "string option"
  sessionResumable :: bool
  reconnectAttempts :: nat
  reconnectTimeout :: "nat option"
  keepAliveInterval :: "nat option"
  sessionStorage :: "string \<rightharpoonup> string"
  model :: "string option"
  config :: "live_config option"
  status :: conn_status
  session :: "nat option"
  localStorage :: "string \<rightharpoonup> string"
  storageFails :: bool
  timers :: "(nat \<times> timer) list"
  timerSeq :: nat
  transport :: "transport_call list"
  suspended :: "(nat \<times> awaiting) list"
  openSeq :: nat
  emitted :: "event list"

definition MAX_RECONNECT_ATTEMPTS :: nat where
  "MAX_RECONNECT_ATTEMPTS = 5"

definition RECONNECT_CODES :: "nat set" where
  "RECONNECT_CODES = {1005, 1006, 1011, 1012, 1013, 1014}"

definition HEARTBEAT_INTERVAL :: nat where
  "HEARTBEAT_INTERVAL = 25000"

definition RECONNECT_BASE_DELAY :: real where
  "RECONNECT_BASE_DELAY = 1000"

definition RECONNECT_MAX_DELAY :: real where
  "RECONNECT_MAX_DELAY = 30000"

definition handle_key :: string where
  "handle_key = ''gemini_session_handle''"

text \<open>Truthiness of a \<open>string | null\<close>: neither \<open>null\<close> nor the empty string.\<close>

fun truthy :: "string option \<Rightarrow> bool" where
  "truthy None = False"
| "truthy (Some v) = (v \<noteq> [])"

text \<open>\<open>a || b\<close> and \<open>a || null\<close> on strings.\<close>

definition orElse :: "string option \<Rightarrow> string option \<Rightarrow> string option" where
  "orElse a b = (if truthy a then a else b)"

definition status_name :: "conn_status \<Rightarrow> string" where
  "status_name st =
     (case st of Connected \<Rightarrow> ''connected'' | Disconnected \<Rightarrow> ''disconnected''
      | Connecting \<Rightarrow> ''connecting'')"

section \<open>Programs: state, exceptions, \<open>try\<close>/\<open>catch\<close>\<close>

text \<open>
  A method is a function from the state to an outcome and the state it leaves:
  \<open>Inr v\<close> is a normal return of \<open>v\<close>, \<open>Inl e\<close> an exception \<open>e\<close> leaving the method (for
  an \<open>async\<close> method: the rejection of its promise).
\<close>

type_synonym 'a prog = "client \<Rightarrow> (exn + 'a) \<times> client"

definition ret :: "'a \<Rightarrow> 'a prog" where
  "ret v s = (Inr v, s)"

definition raise :: "exn \<Rightarrow> 'a prog" where
  "raise e s = (Inl e, s)"

definition andThen :: "'a prog \<Rightarrow> ('a \<Rightarrow> 'b prog) \<Rightarrow> 'b prog" where
  "andThen p f s = (case p s of (Inl e, s') \<Rightarrow> (Inl e, s') | (Inr v, s') \<Rightarrow> f v s')"

fun block :: "unit prog list \<Rightarrow> unit prog" where
  "block [] = ret ()"
| "block (p # ps) = andThen p (\<lambda>_. block ps)"

definition tryCatch :: "'a prog \<Rightarrow> (exn \<Rightarrow> 'a prog) \<Rightarrow> 'a prog" where
  "tryCatch p h s = (case p s of (Inl e, s') \<Rightarrow> h e s' | (Inr v, s') \<Rightarrow> (Inr v, s'))"

text \<open>\<open>try { p } finally { f }\<close> for a \<open>finally\<close> block that only assigns fields.\<close>

definition tryFinally :: "'a prog \<Rightarrow> (client \<Rightarrow> client) \<Rightarrow> 'a prog" where
  "tryFinally p f s = (case p s of (res, s') \<Rightarrow> (res, f s'))"

definition modify :: "(client \<Rightarrow> client) \<Rightarrow> unit prog" where
  "modify f s = (Inr (), f s)"

text \<open>A statement that reads the fields of \<open>this\<close> at the moment it runs.\<close>

definition withState :: "(client \<Rightarrow> 'a prog) \<Rightarrow> 'a prog" where
  "withState f s = f s s"

text \<open>
  A call of an \<open>async\<close> method whose promise is dropped, or a callback run by the host:
  the effects happen, an exception does not reach the caller.
\<close>

definition detached :: "'a prog \<Rightarrow> unit prog" where
  "detached p s = (Inr (), snd (p s))"

definition forEach :: "('a \<Rightarrow> unit prog) \<Rightarrow> 'a list \<Rightarrow> unit prog" where
  "forEach f xs = block (map f xs)"

text \<open>
  \<open>emit\<close> hands an event to the listeners registered for it. The listeners belong to
  the consumers of the client; \<open>L e\<close> says that a listener raises on \<open>e\<close>, in which case
  \<open>emit\<close> raises in turn. \<open>log\<close> is \<open>emit("log", entry)\<close>.
\<close>

definition emit :: "(event \<Rightarrow> bool) \<Rightarrow> event \<Rightarrow> unit prog" where
  "emit L e s =
     (if L e then Inl (ListenerError e) else Inr (), s\<lparr>emitted := emitted s @ [e]\<rparr>)"

definition log :: "(event \<Rightarrow> bool) \<Rightarrow> string \<Rightarrow> unit prog" where
  "log L ty = emit L (Log ty)"

section \<open>Handle store\<close>

definition getSessionHandle :: "client \<Rightarrow> string option" where
  "getSessionHandle s =
     (if storageFails s then orElse (sessionStorage s handle_key) None
      else orElse (orElse (localStorage s handle_key) (sessionStorage s handle_key)) None)"

definition setSessionHandle :: "string option \<Rightarrow> unit prog" where
  "setSessionHandle h =
     modify (\<lambda>s.
       let s1 = s\<lparr>sessionHandle := h\<rparr> in
       if storageFails s then
         (if truthy h then s1\<lparr>sessionStorage := (sessionStorage s)(handle_key := h)\<rparr>
          else s1\<lparr>sessionStorage := (sessionStorage s)(handle_key := None)\<rparr>)
       else
         (if truthy h
          then s1\<lparr>localStorage := (localStorage s)(handle_key := h),
                  sessionStorage := (sessionStorage s)(handle_key := h)\<rparr>
          else s1\<lparr>localStorage := (localStorage s)(handle_key := None),
                  sessionStorage := (sessionStorage s)(handle_key := None)\<rparr>))"

text \<open>The constructor, given the durable storage it finds.\<close>

definition constructor :: "(string \<rightharpoonup> string) \<Rightarrow> bool \<Rightarrow> client" where
  "constructor store fails =
     (let s0 = \<lparr>sessionHandle = None, sessionResumable = False, reconnectAttempts = 0,
                 reconnectTimeout = None, keepAliveInterval = None,
                 sessionStorage = Map.empty, model = None, config = None,
                 status = Disconnected, session = None, localStorage = store,
                 storageFails = fails, timers = [], timerSeq = 0, transport = [],
                 suspended = [], openSeq = 0, emitted = []\<rparr>
      in s0\<lparr>sessionHandle := getSessionHandle s0\<rparr>)"

section \<open>Timers\<close>

text \<open>
  The host hands out a fresh positive handle for every timer; \<open>timers\<close> is its table of
  timers that are armed and have not fired.
\<close>

definition setTimer :: "timer \<Rightarrow> nat prog" where
  "setTimer k s =
     (Inr (Suc (timerSeq s)),
      s\<lparr>timers := timers s @ [(Suc (timerSeq s), k)], timerSeq := Suc (timerSeq s)\<rparr>)"

definition clearTimer :: "nat \<Rightarrow> unit prog" where
  "clearTimer t = modify (\<lambda>s. s\<lparr>timers := filter (\<lambda>e. fst e \<noteq> t) (timers s)\<rparr>)"

definition stopKeepAlive :: "unit prog" where
  "stopKeepAlive =
     withState (\<lambda>s. case keepAliveInterval s of
        Some t \<Rightarrow> block [clearTimer t, modify (\<lambda>s. s\<lparr>keepAliveInterval := None\<rparr>)]
      | None \<Rightarrow> ret ())"

text \<open>
  The statement \<open>if (this._reconnectTimeout) { clearTimeout(...); ... = null }\<close>, which
  \<open>_reconnect\<close> and \<open>disconnect\<close> both contain. A timer handle is never falsy.
\<close>

definition cancelReconnectTimer :: "unit prog" where
  "cancelReconnectTimer =
     withState (\<lambda>s. case reconnectTimeout s of
        Some t \<Rightarrow> block [clearTimer t, modify (\<lambda>s. s\<lparr>reconnectTimeout := None\<rparr>)]
      | None \<Rightarrow> ret ())"

definition startKeepAlive :: "unit prog" where
  "startKeepAlive =
     block [stopKeepAlive,
            andThen (setTimer (KeepAliveTimer HEARTBEAT_INTERVAL))
              (\<lambda>t. modify (\<lambda>s. s\<lparr>keepAliveInterval := Some t\<rparr>))]"

section \<open>Connecting\<close>

text \<open>
  \<open>connect\<close> runs up to \<open>await this.client.live.connect(...)\<close> and is suspended there
  (\<open>connectBegin\<close>); when the transport settles the open, with a session \<open>Inr n\<close> or an
  error \<open>Inl e\<close>, the rest of the method runs (\<open>connectSettle\<close>). Its \<open>catch\<close> block
  (\<open>connectCatch\<close>) serves both parts: an exception before the await reaches it at once.
  The result \<open>Inr b\<close> is the promise fulfilled with \<open>b\<close>, \<open>Inl e\<close> the promise rejected
  with \<open>e\<close>.
\<close>

definition openTransport :: "string \<Rightarrow> live_config \<Rightarrow> awaiting \<Rightarrow> started prog" where
  "openTransport mdl cfg k s =
     (Inr (Pending (Suc (openSeq s))),
      s\<lparr>transport := transport s @
           [OpenCall mdl cfg (if truthy (sessionHandle s) then sessionHandle s else None)],
        suspended := suspended s @ [(Suc (openSeq s), k)],
        openSeq := Suc (openSeq s)\<rparr>)"

definition connectCatch :: "(event \<Rightarrow> bool) \<Rightarrow> bool \<Rightarrow> exn \<Rightarrow> 'a prog" where
  "connectCatch L isReconnect error =
     andThen
       (block
          [modify (\<lambda>s. s\<lparr>status := Disconnected\<rparr>),
           log L ''client.connect.error'',
           if \<not> isReconnect
           then block [setSessionHandle None,
                       modify (\<lambda>s. s\<lparr>sessionResumable := False\<rparr>)]
           else ret ()])
       (\<lambda>_. raise error)"

definition connectBegin ::
  "(event \<Rightarrow> bool) \<Rightarrow> string \<Rightarrow> live_config \<Rightarrow> bool \<Rightarrow> awaiting \<Rightarrow> started prog" where
  "connectBegin L mdl cfg isReconnect k =
     withState (\<lambda>s.
       if status s = Connecting \<or> (status s = Connected \<and> \<not> isReconnect) then
         andThen (log L ''client.connect.warn'') (\<lambda>_. ret (Done False))
       else
         andThen
           (modify (\<lambda>s. s\<lparr>status := Connecting, config := Some cfg, model := Some mdl\<rparr>))
           (\<lambda>_. tryCatch
              (andThen (log L ''client.connect'') (\<lambda>_. openTransport mdl cfg k))
              (connectCatch L isReconnect)))"

definition connectSettle :: "(event \<Rightarrow> bool) \<Rightarrow> bool \<Rightarrow> (exn + nat) \<Rightarrow> bool prog" where
  "connectSettle L isReconnect opening =
     tryCatch
       (case opening of
          Inl e \<Rightarrow> raise e
        | Inr n \<Rightarrow> andThen (modify (\<lambda>s. s\<lparr>session := Some n\<rparr>)) (\<lambda>_. ret True))
       (connectCatch L isReconnect)"

text \<open>The transport settles the open \<open>p\<close>: it no longer waits.\<close>

definition resumeOpen :: "nat \<Rightarrow> unit prog" where
  "resumeOpen p = modify (\<lambda>s. s\<lparr>suspended := filter (\<lambda>e. fst e \<noteq> p) (suspended s)\<rparr>)"

text \<open>
  A call of \<open>connect\<close> whose open settles with \<open>opening\<close> before any other handler runs:
  what the caller of \<open>connect\<close> gets back, and the state then.
\<close>

definition connect ::
  "(event \<Rightarrow> bool) \<Rightarrow> string \<Rightarrow> live_config \<Rightarrow> bool \<Rightarrow> (exn + nat) \<Rightarrow> bool prog" where
  "connect L mdl cfg isReconnect opening =
     andThen (connectBegin L mdl cfg isReconnect (AwaitConnect isReconnect))
       (\<lambda>st. case st of
                Done b \<Rightarrow> ret b
              | Pending p \<Rightarrow>
                  andThen (resumeOpen p) (\<lambda>_. connectSettle L isReconnect opening))"

section \<open>Reconnecting\<close>

text \<open>
  The delay of the retry after the \<open>n\<close>-th failure; \<open>r\<close> is the value that
  \<open>Math.random()\<close> returns, a number in \<open>[0, 1)\<close>.
\<close>

definition reconnectDelay :: "nat \<Rightarrow> real \<Rightarrow> real" where
  "reconnectDelay n r =
     (let baseDelay = min RECONNECT_MAX_DELAY (RECONNECT_BASE_DELAY * 2 ^ (n - 1));
          jitter = r * 1000
      in baseDelay + jitter)"

text \<open>
  \<open>_reconnect\<close>. Its \<open>catch\<close> block (\<open>reconnectCatch\<close>) draws the random number \<open>r\<close> and
  arms the timer that calls \<open>_reconnect\<close> again (\<open>fireReconnectTimer\<close> below).
  \<open>reconnectBegin\<close> is the method up to the point where its \<open>connect\<close> is suspended; when
  that \<open>connect\<close> returns or raises without reaching its await, \<open>_reconnect\<close> goes on at
  once. \<open>reconnectSettle\<close> is the rest of the method, run when the transport settles the
  open: the rest of \<open>connect\<close>, then the assignment after the await or the \<open>catch\<close>.
\<close>

definition reconnectCatch :: "(event \<Rightarrow> bool) \<Rightarrow> real \<Rightarrow> exn \<Rightarrow> unit prog" where
  "reconnectCatch L r error =
     block
       [modify (\<lambda>s. s\<lparr>reconnectAttempts := reconnectAttempts s + 1\<rparr>),
        withState (\<lambda>s.
          let delay = reconnectDelay (reconnectAttempts s) r in
          block
            [log L ''client.reconnect.next'',
             andThen (setTimer (ReconnectTimer delay))
               (\<lambda>t. modify (\<lambda>s. s\<lparr>reconnectTimeout := Some t\<rparr>))])]"

definition reconnectBegin :: "(event \<Rightarrow> bool) \<Rightarrow> real \<Rightarrow> unit prog" where
  "reconnectBegin L r =
     withState (\<lambda>s.
       if status s = Connected then ret ()
       else block
         [log L ''client.reconnect'',
          cancelReconnectTimer,
          withState (\<lambda>s.
            if reconnectAttempts s \<ge> MAX_RECONNECT_ATTEMPTS then
              block [setSessionHandle None,
                     modify (\<lambda>s. s\<lparr>reconnectAttempts := 0\<rparr>),
                     log L ''client.reconnect.failed'']
            else
              tryCatch
                (withState (\<lambda>s.
                   case (model s, config s) of
                     (Some mdl, Some cfg) \<Rightarrow>
                       if mdl \<noteq> [] then
                         andThen (connectBegin L mdl cfg True AwaitReconnect)
                           (\<lambda>st. case st of
                                    Done b \<Rightarrow> modify (\<lambda>s. s\<lparr>reconnectAttempts := 0\<rparr>)
                                  | Pending p \<Rightarrow> ret ())
                       else ret ()
                   | _ \<Rightarrow> ret ()))
                (reconnectCatch L r))])"

definition reconnectSettle :: "(event \<Rightarrow> bool) \<Rightarrow> (exn + nat) \<Rightarrow> real \<Rightarrow> unit prog" where
  "reconnectSettle L opening r =
     tryCatch
       (andThen (connectSettle L True opening)
          (\<lambda>_. modify (\<lambda>s. s\<lparr>reconnectAttempts := 0\<rparr>)))
       (reconnectCatch L r)"

text \<open>
  The callback of the reconnect timer: the host takes the timer \<open>t\<close> out of its table
  and runs \<open>this._reconnect()\<close>, whose promise it drops. Nothing happens when \<open>t\<close> is not
  a pending reconnect timer.
\<close>

definition fireReconnectTimer :: "(event \<Rightarrow> bool) \<Rightarrow> nat \<Rightarrow> real \<Rightarrow> unit prog" where
  "fireReconnectTimer L t r =
     withState (\<lambda>s. case map_of (timers s) t of
        Some (ReconnectTimer d) \<Rightarrow>
          block [clearTimer t, detached (reconnectBegin L r)]
      | _ \<Rightarrow> ret ())"

text \<open>
  The transport settles the open \<open>p\<close> with \<open>opening\<close>: what waits for it goes on. Nothing
  happens when no method waits for \<open>p\<close>.
\<close>

definition openSettles ::
  "(event \<Rightarrow> bool) \<Rightarrow> nat \<Rightarrow> (exn + nat) \<Rightarrow> real \<Rightarrow> unit prog" where
  "openSettles L p opening r =
     withState (\<lambda>s. case map_of (suspended s) p of
        None \<Rightarrow> ret ()
      | Some k \<Rightarrow>
          block
            [resumeOpen p,
             case k of
               AwaitConnect isReconnect \<Rightarrow> detached (connectSettle L isReconnect opening)
             | AwaitReconnect \<Rightarrow> detached (reconnectSettle L opening r)])"

section \<open>Disconnecting and the transport callbacks\<close>

text \<open>\<open>closing\<close> says whether \<open>session.close()\<close> returns (\<open>None\<close>) or throws.\<close>

definition closeSession :: "nat \<Rightarrow> exn option \<Rightarrow> unit prog" where
  "closeSession n closing =
     andThen (modify (\<lambda>s. s\<lparr>transport := transport s @ [CloseCall n]\<rparr>))
       (\<lambda>_. case closing of Some e \<Rightarrow> raise e | None \<Rightarrow> ret ())"

definition disconnect :: "(event \<Rightarrow> bool) \<Rightarrow> exn option \<Rightarrow> bool prog" where
  "disconnect L closing =
     andThen
       (block
          [log L ''client.disconnect'',
           stopKeepAlive,
           cancelReconnectTimer,
           withState (\<lambda>s. case session s of
              Some n \<Rightarrow>
                tryFinally
                  (tryCatch
                     (block [closeSession n closing, log L ''client.disconnect''])
                     (\<lambda>error. log L ''client.disconnect.error''))
                  (\<lambda>s. s\<lparr>session := None\<rparr>)
            | None \<Rightarrow> ret ()),
           withState (\<lambda>s.
             if status s \<noteq> Disconnected then
               block [modify (\<lambda>s. s\<lparr>status := Disconnected\<rparr>),
                      emit L (Close \<lparr>code = 1000, reason = ''Client initiated disconnect'',
                                     wasClean = False\<rparr>)]
             else ret ())])
       (\<lambda>_. ret True)"

definition onopen :: "(event \<Rightarrow> bool) \<Rightarrow> unit prog" where
  "onopen L =
     block [modify (\<lambda>s. s\<lparr>status := Connected\<rparr>),
            modify (\<lambda>s. s\<lparr>reconnectAttempts := 0\<rparr>),
            startKeepAlive,
            log L ''client.open'',
            emit L Open]"

definition onerror :: "(event \<Rightarrow> bool) \<Rightarrow> string \<Rightarrow> unit prog" where
  "onerror L msg = block [log L ''server.error'', emit L (Error msg)]"

definition shouldReconnectOnClose :: "client \<Rightarrow> nat \<Rightarrow> string \<Rightarrow> bool" where
  "shouldReconnectOnClose s c previousStatus =
     (if previousStatus = ''connecting'' then False
      else if c \<in> RECONNECT_CODES then True
      else if c = 1000 \<or> c = 1001 then False
      else truthy (sessionHandle s) \<or> (config s \<noteq> None \<and> truthy (model s)))"

definition onclose :: "(event \<Rightarrow> bool) \<Rightarrow> close_event \<Rightarrow> real \<Rightarrow> unit prog" where
  "onclose L e r =
     block
       [stopKeepAlive,
        withState (\<lambda>s.
          let previousStatus = status s in
          block
            [modify (\<lambda>s. s\<lparr>status := Disconnected\<rparr>),
             log L ''server.close'',
             emit L (Close e),
             withState (\<lambda>s.
               let shouldReconnect =
                     shouldReconnectOnClose s (code e) (status_name previousStatus) in
               if shouldReconnect \<and> (truthy (sessionHandle s) \<or> config s \<noteq> None) then
                 block [log L ''client.reconnect.trigger'',
                        detached (reconnectBegin L r)]
               else if code e = 1000 \<or> code e = 1001 then
                 block [setSessionHandle None,
                        modify (\<lambda>s. s\<lparr>sessionResumable := False\<rparr>),
                        log L ''client.session.clear'']
               else ret ())])]"

section \<open>Inbound messages\<close>

text \<open>\<open>s.startsWith(p)\<close>.\<close>

definition startsWith :: "string \<Rightarrow> string \<Rightarrow> bool" where
  "startsWith v p = (take (length p) v = p)"

text \<open>The predicate of \<open>parts.filter\<close>: inline data whose media type is an audio type.\<close>

definition isAudioPart :: "part \<Rightarrow> bool" where
  "isAudioPart p =
     (case inlineData p of
        None \<Rightarrow> False
      | Some b \<Rightarrow> (case mimeType b of None \<Rightarrow> False | Some m \<Rightarrow> startsWith m ''audio/''))"

text \<open>lodash's \<open>difference\<close>: the elements of the first array that are not in the second.\<close>

definition difference :: "'a list \<Rightarrow> 'a list \<Rightarrow> 'a list" where
  "difference xs ys = filter (\<lambda>x. x \<notin> set ys) xs"

text \<open>
  The body of \<open>audioParts.forEach\<close>. \<open>base64ToArrayBuffer\<close> is imported from a module
  that is not part of the sources at hand; it is the parameter \<open>decode\<close>, with \<open>None\<close>
  for an input on which it throws.
\<close>

definition handleAudioPart ::
  "(event \<Rightarrow> bool) \<Rightarrow> (string \<Rightarrow> bytes option) \<Rightarrow> part \<Rightarrow> unit prog" where
  "handleAudioPart L decode p =
     (case inlineData p of
        None \<Rightarrow> ret ()
      | Some b \<Rightarrow>
          (case data b of
             None \<Rightarrow> ret ()
           | Some d \<Rightarrow>
               if d \<noteq> [] then
                 tryCatch
                   (case decode d of
                      None \<Rightarrow> raise DecodeError
                    | Some buf \<Rightarrow> block [emit L (Audio buf), log L ''server.audio''])
                   (\<lambda>e. log L ''server.audio.error'')
               else ret ()))"

definition handleParts ::
  "(event \<Rightarrow> bool) \<Rightarrow> (string \<Rightarrow> bytes option) \<Rightarrow> part list \<Rightarrow> unit prog" where
  "handleParts L decode ps =
     (let audioParts = filter isAudioPart ps;
          otherParts = difference ps audioParts
      in block
           [forEach (handleAudioPart L decode) audioParts,
            if length otherParts > 0 then
              (let contentToEmit =
                     \<lparr>interrupted = None, turnComplete = None, generationComplete = None,
                      modelTurn = Some \<lparr>parts = Some otherParts\<rparr>\<rparr>
               in block [emit L (Content contentToEmit), log L ''server.content.modelTurn''])
            else ret ()])"

definition handleServerContent ::
  "(event \<Rightarrow> bool) \<Rightarrow> (string \<Rightarrow> bytes option) \<Rightarrow> server_content \<Rightarrow> unit prog" where
  "handleServerContent L decode sc =
     block
       [if interrupted sc \<noteq> None
        then block [log L ''server.content.interrupted'', emit L Interrupted] else ret (),
        if turnComplete sc \<noteq> None
        then block [log L ''server.content.turnComplete'', emit L TurnComplete] else ret (),
        if generationComplete sc = Some True
        then block [log L ''server.content.generationComplete'', emit L GenerationComplete]
        else ret (),
        case modelTurn sc of
          None \<Rightarrow> ret ()
        | Some turn \<Rightarrow>
            (case parts turn of None \<Rightarrow> ret () | Some ps \<Rightarrow> handleParts L decode ps)]"

definition handleResumptionUpdate ::
  "(event \<Rightarrow> bool) \<Rightarrow> session_resumption_update property \<Rightarrow> unit prog" where
  "handleResumptionUpdate L u =
     (case u of
        Absent \<Rightarrow> ret ()
      | Undefined \<Rightarrow> raise TypeError
      | Present update \<Rightarrow>
          block
            [withState (\<lambda>s.
               if resumable update \<and> truthy (newHandle update) then
                 block
                   [if sessionHandle s \<noteq> newHandle update
                    then block [setSessionHandle (newHandle update),
                                log L ''client.sessionUpdate'']
                    else ret (),
                    modify (\<lambda>s. s\<lparr>sessionResumable := True\<rparr>)]
               else
                 block [setSessionHandle None,
                        modify (\<lambda>s. s\<lparr>sessionResumable := False\<rparr>),
                        log L ''client.sessionUpdate'']),
             emit L (SessionResumptionUpdate update)])"

text \<open>
  The statements of \<open>onmessage\<close> after the resumption update. The two \<open>return\<close>
  statements are the branches that end the handler.
\<close>

definition handleRest ::
  "(event \<Rightarrow> bool) \<Rightarrow> (string \<Rightarrow> bytes option) \<Rightarrow> server_message \<Rightarrow> unit prog" where
  "handleRest L decode message =
     block
       [case goAway message of
          Some g \<Rightarrow> block [log L ''server.goAway'', emit L (GoAway g)]
        | None \<Rightarrow> ret (),
        case setupComplete message of
          Some c \<Rightarrow> block [log L ''server.setupComplete'', emit L SetupComplete]
        | None \<Rightarrow> ret (),
        case toolCall message of
          Some tc \<Rightarrow> block [log L ''server.toolCall'', emit L (ToolCall tc)]
        | None \<Rightarrow>
            (case toolCallCancellation message of
               Some tcc \<Rightarrow>
                 block [log L ''server.toolCallCancellation'', emit L (ToolCallCancellation tcc)]
             | None \<Rightarrow>
                 (case serverContent message of
                    Some sc \<Rightarrow> handleServerContent L decode sc
                  | None \<Rightarrow> ret ()))]"

text \<open>
  \<open>onmessage\<close>: the whole body is inside one \<open>try\<close> (\<open>onmessageBody\<close>), whose
  \<open>catch\<close> logs.
\<close>

definition onmessageBody ::
  "(event \<Rightarrow> bool) \<Rightarrow> (string \<Rightarrow> bytes option) \<Rightarrow> server_message \<Rightarrow> unit prog" where
  "onmessageBody L decode message =
     block
       [log L ''server.message.raw'',
        handleResumptionUpdate L (sessionResumptionUpdate message),
        handleRest L decode message]"

definition onmessage ::
  "(event \<Rightarrow> bool) \<Rightarrow> (string \<Rightarrow> bytes option) \<Rightarrow> server_message \<Rightarrow> unit prog" where
  "onmessage L decode message =
     tryCatch (onmessageBody L decode message) (\<lambda>error. log L ''server.message.error'')"

section \<open>Heartbeat and the remaining public methods\<close>

text \<open>
  One tick of the heartbeat interval \<open>t\<close>; \<open>sending\<close> says whether
  \<open>session.sendClientContent\<close> returns (\<open>None\<close>) or throws. An interval stays armed
  after a tick. Nothing happens when \<open>t\<close> is not a pending heartbeat timer.
\<close>

definition keepAliveTick :: "(event \<Rightarrow> bool) \<Rightarrow> nat \<Rightarrow> exn option \<Rightarrow> unit prog" where
  "keepAliveTick L t sending =
     withState (\<lambda>s. case map_of (timers s) t of
        Some (KeepAliveTimer d) \<Rightarrow>
          tryCatch
            (withState (\<lambda>s. case session s of
               Some n \<Rightarrow>
                 if status s = Connected then
                   block [modify (\<lambda>s. s\<lparr>transport := transport s @ [HeartbeatCall n]\<rparr>),
                          case sending of Some e \<Rightarrow> raise e | None \<Rightarrow> ret (),
                          log L ''client.keepalive'']
                 else ret ()
             | None \<Rightarrow> ret ()))
            (\<lambda>error. block [log L ''client.keepalive.error'', stopKeepAlive])
      | _ \<Rightarrow> ret ())"

definition forceReconnect :: "(event \<Rightarrow> bool) \<Rightarrow> exn option \<Rightarrow> unit prog" where
  "forceReconnect L closing =
     withState (\<lambda>s. case session s of
        Some n \<Rightarrow>
          if status s = Connected
          then block [log L ''client.forceReconnect'', closeSession n closing]
          else ret ()
      | None \<Rightarrow> ret ())"

definition clearSession :: "(event \<Rightarrow> bool) \<Rightarrow> unit prog" where
  "clearSession L =
     block [setSessionHandle None,
            modify (\<lambda>s. s\<lparr>sessionResumable := False\<rparr>),
            log L ''client.session.clear'']"

text \<open>\<open>getSessionInfo\<close>: handle, resumable, status, reconnectAttempts.\<close>

definition getSessionInfo :: "client \<Rightarrow> string option \<times> bool \<times> conn_status \<times> nat" where
  "getSessionInfo s = (sessionHandle s, sessionResumable s, status s, reconnectAttempts s)"

definition destroy :: "(event \<Rightarrow> bool) \<Rightarrow> exn option \<Rightarrow> unit prog" where
  "destroy L closing =
     andThen (disconnect L closing)
       (\<lambda>_. modify (\<lambda>s. s\<lparr>sessionStorage := Map.empty\<rparr>))"

section \<open>Runs of the client\<close>

text \<open>
  What can happen to a client: a call of one of its public methods that assign fields,
  a callback from the transport, a timer firing, or the transport settling an open on
  which a method is suspended. Each carries what the environment decides (the outcome of
  a transport call, the random number). The steps of a run may come in any order, so
  that a run can put any handler between the two parts of a suspended method.
  \<open>sendRealtimeInput\<close>, \<open>sendToolResponse\<close> and \<open>send\<close> assign no field and are left out.
  A caller of a public method may see its exception; the state it leaves is the same.
\<close>

datatype action =
    CallConnect string live_config bool
  | CallDisconnect "exn option"
  | CallForceReconnect "exn option"
  | CallClearSession
  | CallDestroy "exn option"
  | OpenSettles nat "exn + nat" real
  | OnOpen
  | OnError string
  | OnClose close_event real
  | OnMessage server_message
  | ReconnectTimerFires nat real
  | KeepAliveTimerFires nat "exn option"

fun step ::
  "(event \<Rightarrow> bool) \<Rightarrow> (string \<Rightarrow> bytes option) \<Rightarrow> action \<Rightarrow> client \<Rightarrow> client" where
  "step L decode (CallConnect mdl cfg isReconnect) s =
     snd (connectBegin L mdl cfg isReconnect (AwaitConnect isReconnect) s)"
| "step L decode (CallDisconnect closing) s = snd (disconnect L closing s)"
| "step L decode (CallForceReconnect closing) s = snd (forceReconnect L closing s)"
| "step L decode CallClearSession s = snd (clearSession L s)"
| "step L decode (CallDestroy closing) s = snd (destroy L closing s)"
| "step L decode (OpenSettles p opening r) s = snd (openSettles L p opening r s)"
| "step L decode OnOpen s = snd (onopen L s)"
| "step L decode (OnError msg) s = snd (onerror L msg s)"
| "step L decode (OnClose e r) s = snd (onclose L e r s)"
| "step L decode (OnMessage m) s = snd (onmessage L decode m s)"
| "step L decode (ReconnectTimerFires t r) s = snd (fireReconnectTimer L t r s)"
| "step L decode (KeepAliveTimerFires t sending) s = snd (keepAliveTick L t sending s)"

definition run ::
  "(event \<Rightarrow> bool) \<Rightarrow> (string \<Rightarrow> bytes option) \<Rightarrow> action list \<Rightarrow> client \<Rightarrow> client" where
  "run L decode acts s = fold (step L decode) acts s"

section \<open>Notions used in the statements\<close>

text \<open>
  \<open>triple P p Q\<close>: started in a state satisfying \<open>P\<close>, the program \<open>p\<close> leaves a state
  satisfying \<open>Q\<close>, whether it returns or raises. \<open>neverRaises p\<close>: \<open>p\<close> always returns.
\<close>

definition triple :: "(client \<Rightarrow> bool) \<Rightarrow> 'a prog \<Rightarrow> (client \<Rightarrow> bool) \<Rightarrow> bool" where
  "triple P p Q \<longleftrightarrow> (\<forall>s. P s \<longrightarrow> Q (snd (p s)))"

definition neverRaises :: "'a prog \<Rightarrow> bool" where
  "neverRaises p \<longleftrightarrow> (\<forall>s. \<exists>v. fst (p s) = Inr v)"

named_theorems pres
named_theorems total

fun isResumptionEvent :: "event \<Rightarrow> bool" where
  "isResumptionEvent (SessionResumptionUpdate u) = True"
| "isResumptionEvent _ = False"

fun isAudioOrContent :: "event \<Rightarrow> bool" where
  "isAudioOrContent (Audio b) = True"
| "isAudioOrContent (Content c) = True"
| "isAudioOrContent _ = False"

text \<open>What the handle store and the resumption events look like in a state.\<close>

definition resumptionView ::
  "client \<Rightarrow>
   string option \<times> bool \<times> (string \<rightharpoonup> string) \<times> (string \<rightharpoonup> string) \<times> bool \<times> event list" where
  "resumptionView s =
     (sessionHandle s, sessionResumable s, sessionStorage s, localStorage s, storageFails s,
      filter isResumptionEvent (emitted s))"

text \<open>The payload string of a part, when it has a non-empty one, and its decoding.\<close>

definition audioPayload :: "part \<Rightarrow> string option" where
  "audioPayload p =
     (case inlineData p of
        None \<Rightarrow> None
      | Some b \<Rightarrow> (case data b of None \<Rightarrow> None | Some d \<Rightarrow> if d \<noteq> [] then Some d else None))"

definition decodePart :: "(string \<Rightarrow> bytes option) \<Rightarrow> part \<Rightarrow> bytes option" where
  "decodePart decode p = (case audioPayload p of None \<Rightarrow> None | Some d \<Rightarrow> decode d)"

definition contentOf :: "part list \<Rightarrow> server_content" where
  "contentOf ps =
     \<lparr>interrupted = None, turnComplete = None, generationComplete = None,
      modelTurn = Some \<lparr>parts = Some ps\<rparr>\<rparr>"

text \<open>
  The audio and content events that the parts of a message give rise to: one audio
  event for every audio part whose payload decodes, then one content event with the
  other parts, if there are any.
\<close>

definition partsEvents :: "(string \<Rightarrow> bytes option) \<Rightarrow> part list \<Rightarrow> event list" where
  "partsEvents decode ps =
     map Audio (List.map_filter (decodePart decode) (filter isAudioPart ps)) @
     (if filter (\<lambda>p. \<not> isAudioPart p) ps = [] then []
      else [Content (contentOf (filter (\<lambda>p. \<not> isAudioPart p) ps))])"

text \<open>The pending reconnect timers of the host, and the invariant that ties them to
  the field \<open>_reconnectTimeout\<close>.\<close>

fun isReconnectTimer :: "nat \<times> timer \<Rightarrow> bool" where
  "isReconnectTimer (t, ReconnectTimer d) = True"
| "isReconnectTimer (t, KeepAliveTimer d) = False"

definition pendingReconnects :: "client \<Rightarrow> (nat \<times> timer) list" where
  "pendingReconnects s = filter isReconnectTimer (timers s)"

definition timersFresh :: "client \<Rightarrow> bool" where
  "timersFresh s \<longleftrightarrow> distinct (map fst (timers s)) \<and> list_all (\<lambda>e. fst e \<le> timerSeq s) (timers s)"

definition timersOwned :: "client \<Rightarrow> bool" where
  "timersOwned s \<longleftrightarrow>
     timersFresh s \<and> list_all (\<lambda>e. reconnectTimeout s = Some (fst e)) (pendingReconnects s)"

definition timersIdle :: "client \<Rightarrow> bool" where
  "timersIdle s \<longleftrightarrow> timersFresh s \<and> pendingReconnects s = []"

text \<open>
  The retry loop, one attempt after the other. \<open>failedRetries t p xs\<close> are the firings of
  the reconnect timers \<open>t\<close>, \<open>t + 1\<close>, ..., each followed by the failure of the open
  \<open>p\<close>, \<open>p + 1\<close>, ... that the attempt makes, with the given error and random draw.
  \<open>retrying mdl cfg h tr tbase pbase k s\<close> describes a client after \<open>k\<close> failed attempts
  in a row: it is disconnected with the counter at \<open>k\<close>, has made \<open>k\<close> open calls since
  the transport log \<open>tr\<close>, none of which is still pending, and waits for the timer
  \<open>tbase + k\<close>.
\<close>

fun failedRetries :: "nat \<Rightarrow> nat \<Rightarrow> (exn \<times> real) list \<Rightarrow> action list" where
  "failedRetries t p [] = []"
| "failedRetries t p ((e, r) # xs) =
     ReconnectTimerFires t r # OpenSettles p (Inl e) r # failedRetries (Suc t) (Suc p) xs"

definition retrying ::
  "string \<Rightarrow> live_config \<Rightarrow> string option \<Rightarrow> transport_call list \<Rightarrow> nat \<Rightarrow> nat \<Rightarrow> nat \<Rightarrow>
   client \<Rightarrow> bool" where
  "retrying mdl cfg h tr tbase pbase k s \<longleftrightarrow>
     status s = Disconnected \<and> reconnectAttempts s = k \<and>
     model s = Some mdl \<and> mdl \<noteq> [] \<and> config s = Some cfg \<and> sessionHandle s = h \<and>
     transport s = tr @ replicate k (OpenCall mdl cfg (if truthy h then h else None)) \<and>
     timerSeq s = tbase + k \<and> reconnectTimeout s = Some (tbase + k) \<and> timersOwned s \<and>
     (\<exists>d. pendingReconnects s = [(tbase + k, ReconnectTimer d)] \<and>
          map_of (timers s) (tbase + k) = Some (ReconnectTimer d)) \<and>
     openSeq s = pbase + k \<and> suspended s = []"

section \<open>Example values\<close>

text \<open>Concrete clients, messages and listeners, on which the theorems are instantiated.\<close>

definition exampleClient :: client where
  "exampleClient = constructor Map.empty False"

text \<open>A disconnected client that holds the resumable handle \<open>H1\<close>.\<close>

definition resumableClient :: client where
  "resumableClient =
     exampleClient\<lparr>sessionHandle := Some ''H1'', sessionResumable := True,
       sessionStorage := [handle_key \<mapsto> ''H1''], localStorage := [handle_key \<mapsto> ''H1'']\<rparr>"

text \<open>The same client after a \<open>connect\<close> that retained a model and a config.\<close>

definition retryClient :: client where
  "retryClient = resumableClient\<lparr>model := Some ''gemini-live'', config := Some ''{}''\<rparr>"

definition refused :: "exn + nat" where
  "refused = Inl (TransportError ''refused'')"

definition abnormalClose :: close_event where
  "abnormalClose = \<lparr>code = 1006, reason = [], wasClean = False\<rparr>"

definition updateMessage :: "session_resumption_update \<Rightarrow> server_message" where
  "updateMessage u =
     \<lparr>sessionResumptionUpdate = Present u, goAway = None, setupComplete = None,
      toolCall = None, toolCallCancellation = None, serverContent = None\<rparr>"

definition audioPart :: "string \<Rightarrow> part" where
  "audioPart d = \<lparr>ptext = None, inlineData = Some \<lparr>mimeType = Some ''audio/pcm'', data = Some d\<rparr>\<rparr>"

definition textPart :: "string \<Rightarrow> part" where
  "textPart t = \<lparr>ptext = Some t, inlineData = None\<rparr>"

definition contentMessage :: "part list \<Rightarrow> server_message" where
  "contentMessage ps =
     \<lparr>sessionResumptionUpdate = Absent, goAway = None, setupComplete = None,
      toolCall = None, toolCallCancellation = None,
      serverContent = Some \<lparr>interrupted = None, turnComplete = None,
        generationComplete = None, modelTurn = Some \<lparr>parts = Some ps\<rparr>\<rparr>\<rparr>"

definition exampleDecode :: "string \<Rightarrow> bytes option" where
  "exampleDecode d = (if d = ''AQID'' then Some [1, 2, 3] else None)"



text \<open>
  A session that obtains the resumable handle \<open>H1\<close>, loses its connection abnormally and
  then fails to reconnect five times, one attempt after the other (\<open>fiveFailures\<close>); in
  \<open>giveUpScenario\<close> the timer armed by the fifth failure fires as well.
\<close>

definition fiveFailures :: "action list" where
  "fiveFailures =
     [CallConnect ''gemini-live'' ''{}'' False,
      OpenSettles 1 (Inr 1) 0,
      OnOpen,
      OnMessage (updateMessage \<lparr>newHandle = Some ''H1'', resumable = True\<rparr>),
      OnClose abnormalClose 0,
      OpenSettles 2 refused 0,
      ReconnectTimerFires 2 0,
      OpenSettles 3 refused 0,
      ReconnectTimerFires 3 0,
      OpenSettles 4 refused 0,
      ReconnectTimerFires 4 0,
      OpenSettles 5 refused 0,
      ReconnectTimerFires 5 0,
      OpenSettles 6 refused 0]"

definition giveUpScenario :: "action list" where
  "giveUpScenario = fiveFailures @ [ReconnectTimerFires 6 0]"

text \<open>
  Two calls of \<open>_reconnect\<close> suspended at the same time. The connection drops and
  \<open>_reconnect\<close> waits for the open 2; \<open>disconnect\<close> is called; the socket of the open
  2 closes with code 1006, which starts a second \<open>_reconnect\<close>, waiting for the open 3;
  then both opens fail.
\<close>

definition overlappingReconnects :: "action list" where
  "overlappingReconnects =
     [CallConnect ''gemini-live'' ''{}'' False,
      OpenSettles 1 (Inr 1) 0,
      OnOpen,
      OnClose abnormalClose 0,
      CallDisconnect None,
      OnClose abnormalClose 0,
      OpenSettles 2 refused 0,
      OpenSettles 3 refused 0]"

text \<open>
  The same after four failed attempts: the fifth attempt waits for the open 6 when
  \<open>disconnect\<close> and the close event start another one, waiting for the open 7.
\<close>

definition overlappingAtFour :: "action list" where
  "overlappingAtFour =
     [CallConnect ''gemini-live'' ''{}'' False,
      OpenSettles 1 (Inr 1) 0,
      OnOpen,
      OnClose abnormalClose 0,
      OpenSettles 2 refused 0,
      ReconnectTimerFires 2 0,
      OpenSettles 3 refused 0,
      ReconnectTimerFires 3 0,
      OpenSettles 4 refused 0,
      ReconnectTimerFires 4 0,
      OpenSettles 5 refused 0,
      ReconnectTimerFires 5 0,
      CallDisconnect None,
      OnClose abnormalClose 0,
      OpenSettles 6 refused 0,
      OpenSettles 7 refused 0]"

section \<open>Rules for programs\<close>

lemma tripleD: "triple P p Q \<Longrightarrow> P s \<Longrightarrow> Q (snd (p s))"
  by (simp add: triple_def)

lemma triple_weaken:
  "triple P' p Q' \<Longrightarrow> (\<And>s. P s \<Longrightarrow> P' s) \<Longrightarrow> (\<And>s. Q' s \<Longrightarrow> Q s) \<Longrightarrow> triple P p Q"
  by (simp add: triple_def)

lemma triple_andThen:
  "triple P p M \<Longrightarrow> (\<And>s. M s \<Longrightarrow> Q s) \<Longrightarrow> (\<And>v. triple M (f v) Q) \<Longrightarrow>
   triple P (andThen p f) Q"
  by (fastforce simp: triple_def andThen_def split: prod.splits sum.splits)

lemma andThen_returns: "fst (p s) = Inr v \<Longrightarrow> andThen p f s = f v (snd (p s))"
  by (cases "p s") (simp add: andThen_def)

lemma triple_skip:
  assumes "neverRaises p" and "triple P p M" and "\<And>v. triple M (f v) Q"
  shows "triple P (andThen p f) Q"
  unfolding triple_def
proof (intro allI impI)
  fix s
  assume "P s"
  obtain v where v: "fst (p s) = Inr v"
    using assms(1) by (auto simp: neverRaises_def)
  have "M (snd (p s))"
    using assms(2) \<open>P s\<close> by (rule tripleD)
  then have "Q (snd (f v (snd (p s))))"
    using assms(3) by (simp add: triple_def)
  then show "Q (snd (andThen p f s))"
    using andThen_returns [of p s v f] v by simp
qed

lemma triple_pass:
  "neverRaises p \<Longrightarrow> triple P p P \<Longrightarrow> (\<And>v. triple P (f v) Q) \<Longrightarrow> triple P (andThen p f) Q"
  by (rule triple_skip)

lemma triple_tryCatch:
  "triple P p M \<Longrightarrow> (\<And>s. M s \<Longrightarrow> Q s) \<Longrightarrow> (\<And>e. triple M (h e) Q) \<Longrightarrow>
   triple P (tryCatch p h) Q"
  by (fastforce simp: triple_def tryCatch_def split: prod.splits sum.splits)

lemma triple_withState: "(\<And>s0. triple (\<lambda>s. s = s0 \<and> P s) (f s0) Q) \<Longrightarrow> triple P (withState f) Q"
  by (simp add: triple_def withState_def)

lemma pres_ret [pres]: "triple I (ret v) I"
  by (simp add: triple_def ret_def)

lemma pres_raise [pres]: "triple I (raise e) I"
  by (simp add: triple_def raise_def)

lemma pres_andThen [pres]:
  "triple I p I \<Longrightarrow> (\<And>v. triple I (f v) I) \<Longrightarrow> triple I (andThen p f) I"
  by (rule triple_andThen)

lemma pres_tryCatch [pres]:
  "triple I p I \<Longrightarrow> (\<And>e. triple I (h e) I) \<Longrightarrow> triple I (tryCatch p h) I"
  by (rule triple_tryCatch)

lemma pres_withState [pres]: "(\<And>s0. triple I (f s0) I) \<Longrightarrow> triple I (withState f) I"
  by (simp add: triple_def withState_def)

lemma pres_detached [pres]: "triple I p I \<Longrightarrow> triple I (detached p) I"
  by (simp add: triple_def detached_def)

lemma pres_block_Nil [pres]: "triple I (block []) I"
  by (simp add: pres)

lemma pres_block_Cons [pres]:
  "triple I p I \<Longrightarrow> triple I (block ps) I \<Longrightarrow> triple I (block (p # ps)) I"
  by (simp add: pres)

lemma pres_forEach [pres]: "(\<And>x. triple I (f x) I) \<Longrightarrow> triple I (forEach f xs) I"
  unfolding forEach_def by (induction xs) (simp_all add: pres)

lemma pres_if [pres]:
  "triple I p I \<Longrightarrow> triple I q I \<Longrightarrow> triple I (if c then p else q) I"
  by simp

lemma pres_case_option [pres]:
  "triple I p I \<Longrightarrow> (\<And>v. triple I (f v) I) \<Longrightarrow>
   triple I (case x of None \<Rightarrow> p | Some v \<Rightarrow> f v) I"
  by (cases x) simp_all

lemma pres_case_sum [pres]:
  "(\<And>v. triple I (f v) I) \<Longrightarrow> (\<And>v. triple I (g v) I) \<Longrightarrow>
   triple I (case x of Inl v \<Rightarrow> f v | Inr v \<Rightarrow> g v) I"
  by (cases x) simp_all

lemma pres_case_property [pres]:
  "triple I p I \<Longrightarrow> triple I q I \<Longrightarrow> (\<And>v. triple I (f v) I) \<Longrightarrow>
   triple I (case x of Absent \<Rightarrow> p | Undefined \<Rightarrow> q | Present v \<Rightarrow> f v) I"
  by (cases x) simp_all

lemma pres_modify: "(\<And>s. I s \<Longrightarrow> I (f s)) \<Longrightarrow> triple I (modify f) I"
  by (simp add: triple_def modify_def)

lemma pres_emit:
  "(\<And>s. I s \<Longrightarrow> I (s\<lparr>emitted := emitted s @ [e]\<rparr>)) \<Longrightarrow> triple I (emit L e) I"
  by (simp add: triple_def emit_def)

lemma pres_log:
  "(\<And>s. I s \<Longrightarrow> I (s\<lparr>emitted := emitted s @ [Log ty]\<rparr>)) \<Longrightarrow> triple I (log L ty) I"
  unfolding log_def by (rule pres_emit)

lemma total_ret [total]: "neverRaises (ret v)"
  by (simp add: neverRaises_def ret_def)

lemma total_andThen [total]:
  assumes "neverRaises p" and "\<And>v. neverRaises (f v)"
  shows "neverRaises (andThen p f)"
  unfolding neverRaises_def
proof
  fix s
  obtain v where v: "fst (p s) = Inr v"
    using assms(1) by (auto simp: neverRaises_def)
  obtain w where "fst (f v (snd (p s))) = Inr w"
    using assms(2) [of v] by (auto simp: neverRaises_def)
  then show "\<exists>w. fst (andThen p f s) = Inr w"
    using andThen_returns [of p s v f] v by simp
qed

lemma total_block_Nil [total]: "neverRaises (block [])"
  by (simp add: total)

lemma total_block_Cons [total]:
  "neverRaises p \<Longrightarrow> neverRaises (block ps) \<Longrightarrow> neverRaises (block (p # ps))"
  by (simp add: total)

lemma total_withState [total]: "(\<And>s0. neverRaises (f s0)) \<Longrightarrow> neverRaises (withState f)"
  by (simp add: neverRaises_def withState_def)

lemma total_modify [total]: "neverRaises (modify f)"
  by (simp add: neverRaises_def modify_def)

lemma total_detached [total]: "neverRaises (detached p)"
  by (simp add: neverRaises_def detached_def)

lemma total_if [total]:
  "neverRaises p \<Longrightarrow> neverRaises q \<Longrightarrow> neverRaises (if c then p else q)"
  by simp

lemma total_case_option [total]:
  "neverRaises p \<Longrightarrow> (\<And>v. neverRaises (f v)) \<Longrightarrow>
   neverRaises (case x of None \<Rightarrow> p | Some v \<Rightarrow> f v)"
  by (cases x) simp_all

lemma total_emit: "\<not> L e \<Longrightarrow> neverRaises (emit L e)"
  by (simp add: neverRaises_def emit_def)

lemma total_log: "\<not> L (Log ty) \<Longrightarrow> neverRaises (log L ty)"
  unfolding log_def by (rule total_emit)

lemma total_tryCatch [total]:
  assumes "\<And>e. neverRaises (h e)"
  shows "neverRaises (tryCatch p h)"
  unfolding neverRaises_def
proof
  fix s
  show "\<exists>v. fst (tryCatch p h s) = Inr v"
  proof (cases "p s")
    case (Pair r s')
    then show ?thesis
      using assms by (cases r) (auto simp: tryCatch_def neverRaises_def)
  qed
qed

lemma total_forEach [total]: "(\<And>x. neverRaises (f x)) \<Longrightarrow> neverRaises (forEach f xs)"
  unfolding forEach_def by (induction xs) (simp_all add: total)

lemma total_setSessionHandle [total]: "neverRaises (setSessionHandle h)"
  by (simp add: setSessionHandle_def total)

lemma log_delivered:
  "\<not> L (Log ty) \<Longrightarrow> log L ty s = (Inr (), s\<lparr>emitted := emitted s @ [Log ty]\<rparr>)"
  by (simp add: log_def emit_def)

lemma status_name_connecting: "(status_name st = ''connecting'') = (st = Connecting)"
  by (cases st) (simp_all add: status_name_def)

section \<open>Resumption view\<close>

lemma handleParts_keeps_view:
  "triple (\<lambda>s. resumptionView s = v) (handleParts L decode ps) (\<lambda>s. resumptionView s = v)"
  unfolding handleParts_def handleAudioPart_def log_def Let_def
  by (intro pres pres_emit; simp add: resumptionView_def)

lemma handleRest_keeps_view:
  "triple (\<lambda>s. resumptionView s = v) (handleRest L decode m) (\<lambda>s. resumptionView s = v)"
  unfolding handleRest_def handleServerContent_def log_def
  by (intro pres pres_emit handleParts_keeps_view; simp add: resumptionView_def)

lemma log_keeps_view: "resumptionView (s\<lparr>emitted := emitted s @ [Log ty]\<rparr>) = resumptionView s"
  by (simp add: resumptionView_def)

lemma onmessage_view:
  assumes logs: "\<forall>ty. \<not> L (Log ty)"
  shows "resumptionView (snd (onmessage L decode m s)) =
         resumptionView (snd (handleResumptionUpdate L (sessionResumptionUpdate m)
            (s\<lparr>emitted := emitted s @ [Log ''server.message.raw'']\<rparr>)))"
proof -
  let ?s0 = "s\<lparr>emitted := emitted s @ [Log ''server.message.raw'']\<rparr>"
  obtain r1 s1 where h1: "handleResumptionUpdate L (sessionResumptionUpdate m) ?s0 = (r1, s1)"
    by (cases "handleResumptionUpdate L (sessionResumptionUpdate m) ?s0")
  obtain r2 s2 where h2: "handleRest L decode m s1 = (r2, s2)"
    by (cases "handleRest L decode m s1")
  have "resumptionView (snd (handleRest L decode m s1)) = resumptionView s1"
    by (rule tripleD [OF handleRest_keeps_view]) simp
  then have v2: "resumptionView s2 = resumptionView s1"
    by (simp add: h2)
  show ?thesis
    using logs v2
    by (cases r1; cases r2)
       (simp_all add: onmessage_def onmessageBody_def tryCatch_def andThen_def log_delivered
          h1 h2 ret_def log_keeps_view)
qed

lemma handleResumptionUpdate_view:
  assumes logs: "\<forall>ty. \<not> L (Log ty)"
  shows "resumptionView (snd (handleResumptionUpdate L (Present u) s)) =
     (if resumable u \<and> truthy (newHandle u) then
        (if sessionHandle s = newHandle u
         then (sessionHandle s, True, sessionStorage s, localStorage s, storageFails s,
               filter isResumptionEvent (emitted s) @ [SessionResumptionUpdate u])
         else (newHandle u, True, (sessionStorage s)(handle_key := newHandle u),
               (if storageFails s then localStorage s
                else (localStorage s)(handle_key := newHandle u)),
               storageFails s,
               filter isResumptionEvent (emitted s) @ [SessionResumptionUpdate u]))
      else (None, False, (sessionStorage s)(handle_key := None),
            (if storageFails s then localStorage s else (localStorage s)(handle_key := None)),
            storageFails s,
            filter isResumptionEvent (emitted s) @ [SessionResumptionUpdate u]))"
  using logs
  by (simp add: handleResumptionUpdate_def withState_def andThen_def modify_def
        setSessionHandle_def log_delivered ret_def emit_def resumptionView_def Let_def)

lemma getSessionHandle_cleared:
  "sessionStorage s handle_key = None \<Longrightarrow>
   (\<not> storageFails s \<Longrightarrow> localStorage s handle_key = None) \<Longrightarrow> getSessionHandle s = None"
  by (simp add: getSessionHandle_def orElse_def)

lemma getSessionHandle_written:
  "truthy h \<Longrightarrow> sessionStorage s handle_key = h \<Longrightarrow>
   (\<not> storageFails s \<Longrightarrow> localStorage s handle_key = h) \<Longrightarrow> getSessionHandle s = h"
  by (simp add: getSessionHandle_def orElse_def)

lemma onmessage_update_view:
  assumes logs: "\<forall>ty. \<not> L (Log ty)"
      and upd: "sessionResumptionUpdate m = Present u"
  shows "resumptionView (snd (onmessage L decode m s)) =
     (if resumable u \<and> truthy (newHandle u) then
        (if sessionHandle s = newHandle u
         then (sessionHandle s, True, sessionStorage s, localStorage s, storageFails s,
               filter isResumptionEvent (emitted s) @ [SessionResumptionUpdate u])
         else (newHandle u, True, (sessionStorage s)(handle_key := newHandle u),
               (if storageFails s then localStorage s
                else (localStorage s)(handle_key := newHandle u)),
               storageFails s,
               filter isResumptionEvent (emitted s) @ [SessionResumptionUpdate u]))
      else (None, False, (sessionStorage s)(handle_key := None),
            (if storageFails s then localStorage s else (localStorage s)(handle_key := None)),
            storageFails s,
            filter isResumptionEvent (emitted s) @ [SessionResumptionUpdate u]))"
  by (simp add: onmessage_view [OF logs] upd handleResumptionUpdate_view [OF logs])

lemma nonresumable_update_clears:
  assumes logs: "\<forall>ty. \<not> L (Log ty)"
      and upd: "sessionResumptionUpdate m = Present u"
      and non: "\<not> resumable u"
  shows "sessionHandle (snd (onmessage L decode m s)) = None \<and>
         \<not> sessionResumable (snd (onmessage L decode m s)) \<and>
         getSessionHandle (snd (onmessage L decode m s)) = None"
proof -
  let ?t = "snd (onmessage L decode m s)"
  have v: "resumptionView ?t =
      (None, False, (sessionStorage s)(handle_key := None),
       (if storageFails s then localStorage s else (localStorage s)(handle_key := None)),
       storageFails s,
       filter isResumptionEvent (emitted s) @ [SessionResumptionUpdate u])"
    using onmessage_update_view [OF logs upd, of decode s] non by simp
  then have f: "sessionHandle ?t = None" "\<not> sessionResumable ?t"
    "sessionStorage ?t handle_key = None"
    "\<not> storageFails ?t \<Longrightarrow> localStorage ?t handle_key = None"
    by (auto simp: resumptionView_def split: if_splits)
  from f(3,4) have "getSessionHandle ?t = None"
    by (rule getSessionHandle_cleared)
  with f show ?thesis by simp
qed

text \<open>
  Claim C6. Assume that the log listeners do not raise, and let a message carry a
  session-resumption update \<open>u\<close>. If \<open>u\<close> is resumable and carries a new handle, the
  handle becomes the stored one and the resumability flag is set; the stores are written
  only if the handle differs from the current one. If \<open>u\<close> is not resumable, the handle,
  the stores and the flag are cleared. In every case exactly one
  \<open>sessionresumptionupdate\<close> event is emitted, carrying \<open>u\<close>. Hence an update with handle
  \<open>H1\<close>, followed after any further activity \<open>acts\<close> by a non-resumable update, leaves
  the store empty and the flag false.
\<close>

theorem resumption_update_handling:
  assumes logs: "\<forall>ty. \<not> L (Log ty)"
      and upd: "sessionResumptionUpdate m = Present u"
  shows "(resumable u \<and> truthy (newHandle u) \<longrightarrow>
            sessionHandle (snd (onmessage L decode m s)) = newHandle u \<and>
            sessionResumable (snd (onmessage L decode m s)) \<and>
            (if sessionHandle s = newHandle u
             then sessionStorage (snd (onmessage L decode m s)) = sessionStorage s \<and>
                  localStorage (snd (onmessage L decode m s)) = localStorage s
             else getSessionHandle (snd (onmessage L decode m s)) = newHandle u)) \<and>
         (\<not> resumable u \<longrightarrow>
            sessionHandle (snd (onmessage L decode m s)) = None \<and>
            \<not> sessionResumable (snd (onmessage L decode m s)) \<and>
            getSessionHandle (snd (onmessage L decode m s)) = None) \<and>
         filter isResumptionEvent (emitted (snd (onmessage L decode m s))) =
           filter isResumptionEvent (emitted s) @ [SessionResumptionUpdate u] \<and>
         (\<not> resumable u \<and>
          sessionResumptionUpdate m1 = Present \<lparr>newHandle = Some ''H1'', resumable = True\<rparr> \<longrightarrow>
            sessionHandle (snd (onmessage L decode m1 s1)) = Some ''H1'' \<and>
            sessionHandle
              (snd (onmessage L decode m (run L decode acts (snd (onmessage L decode m1 s1))))) =
              None \<and>
            getSessionHandle
              (snd (onmessage L decode m (run L decode acts (snd (onmessage L decode m1 s1))))) =
              None \<and>
            \<not> sessionResumable
              (snd (onmessage L decode m (run L decode acts (snd (onmessage L decode m1 s1))))))"
proof (intro conjI impI)
  let ?t = "snd (onmessage L decode m s)"
  note v = onmessage_update_view [OF logs upd, of decode s]
  show "filter isResumptionEvent (emitted ?t) =
        filter isResumptionEvent (emitted s) @ [SessionResumptionUpdate u]"
    using v by (auto simp: resumptionView_def split: if_splits)
  {
    assume r: "resumable u \<and> truthy (newHandle u)"
    show "sessionHandle ?t = newHandle u"
      using v r by (auto simp: resumptionView_def split: if_splits)
    show "sessionResumable ?t"
      using v r by (auto simp: resumptionView_def split: if_splits)
    show "if sessionHandle s = newHandle u
          then sessionStorage ?t = sessionStorage s \<and> localStorage ?t = localStorage s
          else getSessionHandle ?t = newHandle u"
    proof (cases "sessionHandle s = newHandle u")
      case True
      then show ?thesis
        using v r by (auto simp: resumptionView_def)
    next
      case False
      with v r have "sessionStorage ?t handle_key = newHandle u"
        and "\<not> storageFails ?t \<Longrightarrow> localStorage ?t handle_key = newHandle u"
        by (auto simp: resumptionView_def split: if_splits)
      with r have "getSessionHandle ?t = newHandle u"
        by (intro getSessionHandle_written) simp_all
      with False show ?thesis by simp
    qed
  }
  {
    assume non: "\<not> resumable u"
    note c = nonresumable_update_clears [OF logs upd non]
    show "sessionHandle ?t = None" "\<not> sessionResumable ?t" "getSessionHandle ?t = None"
      using c by simp_all
  }
  {
    assume a: "\<not> resumable u \<and>
      sessionResumptionUpdate m1 = Present \<lparr>newHandle = Some ''H1'', resumable = True\<rparr>"
    let ?mid = "run L decode acts (snd (onmessage L decode m1 s1))"
    from a have non: "\<not> resumable u" by simp
    note c = nonresumable_update_clears [OF logs upd non, of decode ?mid]
    show "sessionHandle (snd (onmessage L decode m ?mid)) = None"
      "getSessionHandle (snd (onmessage L decode m ?mid)) = None"
      "\<not> sessionResumable (snd (onmessage L decode m ?mid))"
      using c by simp_all
    from a have u1: "sessionResumptionUpdate m1 =
        Present \<lparr>newHandle = Some ''H1'', resumable = True\<rparr>" by simp
    show "sessionHandle (snd (onmessage L decode m1 s1)) = Some ''H1''"
      using onmessage_update_view [OF logs u1, of decode s1]
      by (auto simp: resumptionView_def split: if_splits)
  }
qed

theorem resumption_update_handling_witness:
  "sessionResumptionUpdate (updateMessage \<lparr>newHandle = None, resumable = False\<rparr>) =
     Present \<lparr>newHandle = None, resumable = False\<rparr> \<and>
   sessionHandle (snd (onmessage (\<lambda>e. False) (\<lambda>d. None)
      (updateMessage \<lparr>newHandle = Some ''H1'', resumable = True\<rparr>) exampleClient)) = Some ''H1'' \<and>
   getSessionHandle
     (snd (onmessage (\<lambda>e. False) (\<lambda>d. None)
        (updateMessage \<lparr>newHandle = None, resumable = False\<rparr>)
        (run (\<lambda>e. False) (\<lambda>d. None) []
           (snd (onmessage (\<lambda>e. False) (\<lambda>d. None)
              (updateMessage \<lparr>newHandle = Some ''H1'', resumable = True\<rparr>) exampleClient))))) =
     None"
  using resumption_update_handling
    [of "\<lambda>e. False" "updateMessage \<lparr>newHandle = None, resumable = False\<rparr>"
        "\<lparr>newHandle = None, resumable = False\<rparr>" "\<lambda>d. None" exampleClient
        "updateMessage \<lparr>newHandle = Some ''H1'', resumable = True\<rparr>" exampleClient "[]"]
  by (simp add: updateMessage_def)

section \<open>Audio and content events\<close>

lemma difference_filter: "difference ps (filter P ps) = filter (\<lambda>p. \<not> P p) ps"
  by (induction ps) (auto simp: difference_def intro: filter_cong)

lemma handleAudioPart_events:
  assumes logs: "\<forall>ty. \<not> L (Log ty)"
  shows "fst (handleAudioPart L decode p s) = Inr () \<and>
         filter isAudioOrContent (emitted (snd (handleAudioPart L decode p s))) =
           filter isAudioOrContent (emitted s) @
           (case decodePart decode p of None \<Rightarrow> [] | Some buf \<Rightarrow> [Audio buf])"
  using logs
  by (cases "L (Audio (the (decodePart decode p)))")
     (auto simp: handleAudioPart_def decodePart_def audioPayload_def tryCatch_def andThen_def
        raise_def ret_def log_delivered emit_def split: option.splits)

lemma forEach_audio_events:
  assumes logs: "\<forall>ty. \<not> L (Log ty)"
  shows "fst (forEach (handleAudioPart L decode) xs s) = Inr () \<and>
         filter isAudioOrContent (emitted (snd (forEach (handleAudioPart L decode) xs s))) =
           filter isAudioOrContent (emitted s) @
           map Audio (List.map_filter (decodePart decode) xs)"
proof (induction xs arbitrary: s)
  case Nil
  show ?case by (simp add: forEach_def ret_def List.map_filter_simps)
next
  case (Cons p xs)
  let ?s1 = "snd (handleAudioPart L decode p s)"
  note h = handleAudioPart_events [OF logs, of decode p s]
  have step: "forEach (handleAudioPart L decode) (p # xs) s =
              forEach (handleAudioPart L decode) xs ?s1"
    using andThen_returns [of "handleAudioPart L decode p" s "()"
            "\<lambda>_. block (map (handleAudioPart L decode) xs)"] h
    by (simp add: forEach_def)
  show ?case
    using Cons.IH [of ?s1] h
    by (cases "decodePart decode p") (simp_all add: step List.map_filter_simps)
qed

lemma handleParts_events:
  assumes logs: "\<forall>ty. \<not> L (Log ty)"
  shows "triple (\<lambda>t. filter isAudioOrContent (emitted t) = c)
           (handleParts L decode ps)
           (\<lambda>t. filter isAudioOrContent (emitted t) = c @ partsEvents decode ps)"
  unfolding triple_def
proof (intro allI impI)
  fix s :: client
  assume c: "filter isAudioOrContent (emitted s) = c"
  let ?audio = "filter isAudioPart ps"
  obtain r1 s1 where eq: "forEach (handleAudioPart L decode) ?audio s = (r1, s1)"
    by (cases "forEach (handleAudioPart L decode) ?audio s")
  have f: "r1 = Inr ()"
    "filter isAudioOrContent (emitted s1) =
       filter isAudioOrContent (emitted s) @
       map Audio (List.map_filter (decodePart decode) ?audio)"
    using forEach_audio_events [OF logs, of decode ?audio s] by (simp_all add: eq)
  show "filter isAudioOrContent (emitted (snd (handleParts L decode ps s))) =
        c @ partsEvents decode ps"
    using f c logs
    by (simp add: handleParts_def Let_def eq difference_filter partsEvents_def contentOf_def
          andThen_def emit_def log_delivered ret_def)
qed

lemma handleServerContent_events:
  assumes quiet: "\<forall>e. L e \<longrightarrow> isAudioOrContent e"
      and turn: "modelTurn sc = Some turn" and ps: "parts turn = Some ps"
  shows "triple (\<lambda>t. filter isAudioOrContent (emitted t) = c)
           (handleServerContent L decode sc)
           (\<lambda>t. filter isAudioOrContent (emitted t) = c @ partsEvents decode ps)"
proof -
  have logs: "\<forall>ty. \<not> L (Log ty)"
    using quiet by auto
  have d: "\<not> L Interrupted" "\<not> L TurnComplete" "\<not> L GenerationComplete"
    using quiet by auto
  show ?thesis
    unfolding handleServerContent_def block.simps
    apply (rule triple_pass)
      apply (intro total total_log total_emit; simp add: logs d)
     apply (intro pres pres_log pres_emit; simp)
    apply (rule triple_pass)
      apply (intro total total_log total_emit; simp add: logs d)
     apply (intro pres pres_log pres_emit; simp)
    apply (rule triple_pass)
      apply (intro total total_log total_emit; simp add: logs d)
     apply (intro pres pres_log pres_emit; simp)
    apply (rule triple_andThen [where M = "\<lambda>t. filter isAudioOrContent (emitted t) =
              c @ partsEvents decode ps"])
      apply (simp add: turn ps handleParts_events [OF logs])
     apply simp
    apply (rule pres_ret)
    done
qed

lemma handleRest_events:
  assumes quiet: "\<forall>e. L e \<longrightarrow> isAudioOrContent e"
      and m: "toolCall m = None" "toolCallCancellation m = None" "serverContent m = Some sc"
      and turn: "modelTurn sc = Some turn" and ps: "parts turn = Some ps"
  shows "triple (\<lambda>t. filter isAudioOrContent (emitted t) = c)
           (handleRest L decode m)
           (\<lambda>t. filter isAudioOrContent (emitted t) = c @ partsEvents decode ps)"
proof -
  have logs: "\<forall>ty. \<not> L (Log ty)"
    using quiet by auto
  have d: "\<And>g. \<not> L (GoAway g)" "\<not> L SetupComplete"
    using quiet by auto
  show ?thesis
    unfolding handleRest_def block.simps
    apply (rule triple_pass)
      apply (intro total total_log total_emit; simp add: logs d)
     apply (intro pres pres_log pres_emit; simp)
    apply (rule triple_pass)
      apply (intro total total_log total_emit; simp add: logs d)
     apply (intro pres pres_log pres_emit; simp)
    apply (rule triple_andThen [where M = "\<lambda>t. filter isAudioOrContent (emitted t) =
              c @ partsEvents decode ps"])
      apply (simp add: m handleServerContent_events [OF quiet turn ps])
     apply simp
    apply (rule pres_ret)
    done
qed

lemma handleResumptionUpdate_total:
  assumes quiet: "\<forall>e. L e \<longrightarrow> isAudioOrContent e" and u: "u \<noteq> Undefined"
  shows "neverRaises (handleResumptionUpdate L u)"
proof -
  have d: "\<And>ty. \<not> L (Log ty)" "\<And>v. \<not> L (SessionResumptionUpdate v)"
    using quiet by auto
  show ?thesis
  proof (cases u)
    case Absent
    then show ?thesis
      by (simp add: handleResumptionUpdate_def total)
  next
    case Undefined
    with u show ?thesis by simp
  next
    case (Present v)
    show ?thesis
      unfolding handleResumptionUpdate_def Present property.case
      by (intro total total_log total_emit; simp add: d)
  qed
qed

lemma handleResumptionUpdate_keeps_events:
  "triple (\<lambda>t. filter isAudioOrContent (emitted t) = c) (handleResumptionUpdate L u)
          (\<lambda>t. filter isAudioOrContent (emitted t) = c)"
  unfolding handleResumptionUpdate_def setSessionHandle_def
  by (intro pres pres_log pres_emit pres_modify; simp add: Let_def)

lemma onmessage_parts_events:
  assumes quiet: "\<forall>e. L e \<longrightarrow> isAudioOrContent e"
      and u: "sessionResumptionUpdate m \<noteq> Undefined"
      and m: "toolCall m = None" "toolCallCancellation m = None" "serverContent m = Some sc"
      and turn: "modelTurn sc = Some turn" and ps: "parts turn = Some ps"
  shows "filter isAudioOrContent (emitted (snd (onmessage L decode m s))) =
         filter isAudioOrContent (emitted s) @ partsEvents decode ps"
proof -
  have logs: "\<And>ty. \<not> L (Log ty)"
    using quiet by auto
  let ?c = "filter isAudioOrContent (emitted s)"
  have "triple (\<lambda>t. filter isAudioOrContent (emitted t) = ?c) (onmessage L decode m)
          (\<lambda>t. filter isAudioOrContent (emitted t) = ?c @ partsEvents decode ps)"
    unfolding onmessage_def onmessageBody_def block.simps
    apply (rule triple_tryCatch [where M = "\<lambda>t. filter isAudioOrContent (emitted t) =
              ?c @ partsEvents decode ps"])
      apply (rule triple_pass)
        apply (rule total_log, rule logs)
       apply (rule pres_log, simp)
      apply (rule triple_pass)
        apply (rule handleResumptionUpdate_total [OF quiet u])
       apply (rule handleResumptionUpdate_keeps_events)
      apply (rule triple_andThen [where M = "\<lambda>t. filter isAudioOrContent (emitted t) =
              ?c @ partsEvents decode ps"])
        apply (rule handleRest_events [OF quiet m turn ps])
       apply simp
      apply (rule pres_ret)
     apply simp
    apply (rule pres_log, simp)
    done
  then show ?thesis
    by (simp add: triple_def)
qed

lemma map_filter_all_Some:
  "\<forall>x\<in>set xs. f x \<noteq> None \<Longrightarrow> map f xs = map Some (List.map_filter f xs)"
  by (induction xs) (auto simp: List.map_filter_simps split: option.splits)

text \<open>
  Claim C3. Take a message with content parts \<open>ps\<close> that is handled up to its parts
  (no malformed resumption update, no tool call or cancellation), listeners that raise
  at most on audio and content events, and audio parts that all carry a payload that
  decodes. Then the audio and content events emitted for the message are: one audio
  event per audio part, in array order, carrying the decoded payload, followed by one
  content event with the non-audio parts in their order, and no content event when
  there is no non-audio part. In particular the parts \<open>[a, t]\<close>, with \<open>a\<close> an audio
  part and \<open>t\<close> not, give one audio event and then one content event with \<open>[t]\<close>.
\<close>

theorem content_message_events:
  assumes quiet: "\<forall>e. L e \<longrightarrow> isAudioOrContent e"
      and u: "sessionResumptionUpdate m \<noteq> Undefined"
      and m: "toolCall m = None" "toolCallCancellation m = None" "serverContent m = Some sc"
      and turn: "modelTurn sc = Some turn" and ps: "parts turn = Some ps"
      and dec: "\<forall>p\<in>set ps. isAudioPart p \<longrightarrow> decodePart decode p \<noteq> None"
  shows "(\<exists>bufs. map (decodePart decode) (filter isAudioPart ps) = map Some bufs \<and>
            filter isAudioOrContent (emitted (snd (onmessage L decode m s))) =
              filter isAudioOrContent (emitted s) @ map Audio bufs @
              (if filter (\<lambda>p. \<not> isAudioPart p) ps = [] then []
               else [Content (contentOf (filter (\<lambda>p. \<not> isAudioPart p) ps))])) \<and>
         (\<forall>a t buf. ps = [a, t] \<and> isAudioPart a \<and> \<not> isAudioPart t \<and>
                    decodePart decode a = Some buf \<longrightarrow>
            filter isAudioOrContent (emitted (snd (onmessage L decode m s))) =
              filter isAudioOrContent (emitted s) @ [Audio buf, Content (contentOf [t])])"
proof (intro conjI allI impI)
  note ev = onmessage_parts_events [OF quiet u m turn ps, of decode s]
  let ?bufs = "List.map_filter (decodePart decode) (filter isAudioPart ps)"
  have "map (decodePart decode) (filter isAudioPart ps) = map Some ?bufs"
    using dec by (intro map_filter_all_Some) simp
  then show "\<exists>bufs. map (decodePart decode) (filter isAudioPart ps) = map Some bufs \<and>
            filter isAudioOrContent (emitted (snd (onmessage L decode m s))) =
              filter isAudioOrContent (emitted s) @ map Audio bufs @
              (if filter (\<lambda>p. \<not> isAudioPart p) ps = [] then []
               else [Content (contentOf (filter (\<lambda>p. \<not> isAudioPart p) ps))])"
    using ev by (intro exI [of _ ?bufs]) (simp add: partsEvents_def)
  fix a t buf
  assume "ps = [a, t] \<and> isAudioPart a \<and> \<not> isAudioPart t \<and> decodePart decode a = Some buf"
  then show "filter isAudioOrContent (emitted (snd (onmessage L decode m s))) =
              filter isAudioOrContent (emitted s) @ [Audio buf, Content (contentOf [t])]"
    using ev by (simp add: partsEvents_def List.map_filter_simps)
qed

lemma isAudioPart_examples:
  "isAudioPart (audioPart d)" "\<not> isAudioPart (textPart t)"
  by (simp_all add: isAudioPart_def audioPart_def textPart_def startsWith_def)

lemma decodePart_example: "decodePart exampleDecode (audioPart ''AQID'') = Some [1, 2, 3]"
  by (simp add: decodePart_def audioPayload_def audioPart_def exampleDecode_def)

theorem content_message_events_witness:
  "isAudioPart (audioPart ''AQID'') \<and>
   decodePart exampleDecode (audioPart ''AQID'') = Some [1, 2, 3] \<and>
   filter isAudioOrContent
     (emitted (snd (onmessage (\<lambda>e. False) exampleDecode
        (contentMessage [audioPart ''AQID'', textPart ''hello'']) exampleClient))) =
     [Audio [1, 2, 3], Content (contentOf [textPart ''hello''])]"
proof -
  let ?ps = "[audioPart ''AQID'', textPart ''hello'']"
  have d: "\<forall>p\<in>set ?ps. isAudioPart p \<longrightarrow> decodePart exampleDecode p \<noteq> None"
    by (simp add: isAudioPart_examples decodePart_example)
  have e: "emitted exampleClient = []"
    by (simp add: exampleClient_def constructor_def Let_def)
  from content_message_events
    [of "\<lambda>e. False" "contentMessage ?ps"
        "\<lparr>interrupted = None, turnComplete = None, generationComplete = None,
          modelTurn = Some \<lparr>parts = Some ?ps\<rparr>\<rparr>"
        "\<lparr>parts = Some ?ps\<rparr>" ?ps exampleDecode exampleClient, OF _ _ _ _ _ _ _ d]
  have "filter isAudioOrContent
     (emitted (snd (onmessage (\<lambda>e. False) exampleDecode (contentMessage ?ps) exampleClient))) =
     [Audio [1, 2, 3], Content (contentOf [textPart ''hello''])]"
    by (simp add: contentMessage_def isAudioPart_examples decodePart_example e)
  then show ?thesis
    by (simp add: isAudioPart_examples decodePart_example)
qed




section \<open>The reconnect decision\<close>

text \<open>
  Claim C1. \<open>_shouldReconnectOnClose\<close>, given a close code and the status before the
  closure: false if that status was \<open>connecting\<close>; otherwise true for the codes 1005,
  1006, 1011, 1012, 1013 and 1014; otherwise false for 1000 and 1001; and for every
  other code true exactly if a handle is stored or both a model and a config are
  retained (a stored handle or retained model being a non-empty string).
\<close>

theorem shouldReconnectOnClose_decision:
  "shouldReconnectOnClose s c (status_name st) =
     (if st = Connecting then False
      else if c \<in> {1005, 1006, 1011, 1012, 1013, 1014} then True
      else if c \<in> {1000, 1001} then False
      else truthy (sessionHandle s) \<or> (truthy (model s) \<and> config s \<noteq> None))"
  by (auto simp: shouldReconnectOnClose_def RECONNECT_CODES_def status_name_connecting)

section \<open>Connecting\<close>

text \<open>
  Claim C7. A call of \<open>connect\<close> while the status is \<open>connecting\<close>, or while it is
  \<open>connected\<close> and \<open>isReconnect\<close> is false, is rejected: it does not return true (it
  returns false when the log listener does not raise), it makes no call on the
  transport, and the only change of the state is the log entry; model, config, handle,
  status and session are as before. A call that is not rejected and whose transport
  open succeeds returns true, after one open call that carries the stored handle.
\<close>

theorem connect_rejected:
  "(status s = Connecting \<or> (status s = Connected \<and> \<not> isReconnect) \<longrightarrow>
      fst (connect L mdl cfg isReconnect opening s) \<noteq> Inr True \<and>
      (\<not> L (Log ''client.connect.warn'') \<longrightarrow>
         fst (connect L mdl cfg isReconnect opening s) = Inr False) \<and>
      snd (connect L mdl cfg isReconnect opening s) =
        s\<lparr>emitted := emitted s @ [Log ''client.connect.warn'']\<rparr> \<and>
      transport (snd (connect L mdl cfg isReconnect opening s)) = transport s \<and>
      session (snd (connect L mdl cfg isReconnect opening s)) = session s \<and>
      model (snd (connect L mdl cfg isReconnect opening s)) = model s \<and>
      config (snd (connect L mdl cfg isReconnect opening s)) = config s \<and>
      sessionHandle (snd (connect L mdl cfg isReconnect opening s)) = sessionHandle s \<and>
      status (snd (connect L mdl cfg isReconnect opening s)) = status s) \<and>
   (\<not> (status s = Connecting \<or> (status s = Connected \<and> \<not> isReconnect)) \<and>
    \<not> L (Log ''client.connect'') \<longrightarrow>
      fst (connect L mdl cfg isReconnect (Inr n) s) = Inr True \<and>
      session (snd (connect L mdl cfg isReconnect (Inr n) s)) = Some n \<and>
      transport (snd (connect L mdl cfg isReconnect (Inr n) s)) =
        transport s @
        [OpenCall mdl cfg (if truthy (sessionHandle s) then sessionHandle s else None)])"
  by (auto simp: connect_def connectBegin_def connectSettle_def connectCatch_def
        resumeOpen_def withState_def andThen_def tryCatch_def log_def emit_def ret_def
        modify_def openTransport_def)

theorem connect_rejected_witness:
  "status (exampleClient\<lparr>status := Connected\<rparr>) = Connected \<and>
   fst (connect (\<lambda>e. False) ''gemini-live'' ''{}'' False (Inr 7)
          (exampleClient\<lparr>status := Connected\<rparr>)) = Inr False \<and>
   transport (snd (connect (\<lambda>e. False) ''gemini-live'' ''{}'' False (Inr 7)
          (exampleClient\<lparr>status := Connected\<rparr>))) = [] \<and>
   status exampleClient = Disconnected \<and>
   fst (connect (\<lambda>e. False) ''gemini-live'' ''{}'' False (Inr 7) exampleClient) = Inr True"
  using connect_rejected
    [of "exampleClient\<lparr>status := Connected\<rparr>" False "\<lambda>e. False" "''gemini-live''" "''{}''" "Inr 7"]
    connect_rejected [of exampleClient False "\<lambda>e. False" "''gemini-live''" "''{}''" _ 7]
  by (simp add: exampleClient_def constructor_def Let_def)

text \<open>
  Claim C8. Assume that the log listeners do not raise. When \<open>connect\<close> is not rejected
  and the transport open fails with \<open>e\<close>, the status is \<open>disconnected\<close> afterwards and
  \<open>e\<close> is raised to the caller. A user-initiated attempt has then cleared the handle,
  the stores and the resumability flag; a reconnect attempt has left handle, flag and
  stores as they were.
\<close>

theorem connect_failure:
  assumes "\<not> (status s = Connecting \<or> (status s = Connected \<and> \<not> isReconnect))"
      and "\<forall>ty. \<not> L (Log ty)"
  shows "fst (connect L mdl cfg isReconnect (Inl e) s) = Inl e \<and>
         status (snd (connect L mdl cfg isReconnect (Inl e) s)) = Disconnected \<and>
         (if isReconnect
          then sessionHandle (snd (connect L mdl cfg isReconnect (Inl e) s)) = sessionHandle s \<and>
               sessionResumable (snd (connect L mdl cfg isReconnect (Inl e) s)) =
                 sessionResumable s \<and>
               sessionStorage (snd (connect L mdl cfg isReconnect (Inl e) s)) =
                 sessionStorage s \<and>
               localStorage (snd (connect L mdl cfg isReconnect (Inl e) s)) = localStorage s
          else sessionHandle (snd (connect L mdl cfg isReconnect (Inl e) s)) = None \<and>
               \<not> sessionResumable (snd (connect L mdl cfg isReconnect (Inl e) s)) \<and>
               getSessionHandle (snd (connect L mdl cfg isReconnect (Inl e) s)) = None)"
  using assms
  by (auto simp: connect_def connectBegin_def connectSettle_def connectCatch_def
        resumeOpen_def withState_def andThen_def tryCatch_def log_delivered
        openTransport_def modify_def raise_def ret_def setSessionHandle_def Let_def
        getSessionHandle_def orElse_def)

theorem connect_failure_witness:
  "status resumableClient = Disconnected \<and>
   sessionHandle resumableClient = Some ''H1'' \<and>
   fst (connect (\<lambda>e. False) ''gemini-live'' ''{}'' False (Inl (TransportError ''refused''))
          resumableClient) = Inl (TransportError ''refused'') \<and>
   sessionHandle (snd (connect (\<lambda>e. False) ''gemini-live'' ''{}'' False
          (Inl (TransportError ''refused'')) resumableClient)) = None \<and>
   sessionHandle (snd (connect (\<lambda>e. False) ''gemini-live'' ''{}'' True
          (Inl (TransportError ''refused'')) resumableClient)) = Some ''H1''"
proof -
  have st: "status resumableClient = Disconnected"
    and h: "sessionHandle resumableClient = Some ''H1''"
    by (simp_all add: resumableClient_def exampleClient_def constructor_def Let_def)
  from st have pre: "\<And>b. \<not> (status resumableClient = Connecting \<or>
      (status resumableClient = Connected \<and> \<not> b))"
    by simp
  have logs: "\<forall>ty. \<not> (\<lambda>e. False) (Log ty)"
    by simp
  from connect_failure [where s = resumableClient and isReconnect = False and L = "\<lambda>e. False"
         and mdl = "''gemini-live''" and cfg = "''{}''" and e = "TransportError ''refused''",
         OF pre logs]
       connect_failure [where s = resumableClient and isReconnect = True and L = "\<lambda>e. False"
         and mdl = "''gemini-live''" and cfg = "''{}''" and e = "TransportError ''refused''",
         OF pre logs]
       st h
  show ?thesis by simp
qed

section \<open>Clearing the session\<close>

text \<open>
  Claim C10. From every state, and whatever the listeners do, \<open>clearSession\<close> sets the
  handle to null and the resumability flag to false, removes the handle from the stores
  and adds one log entry, and changes nothing else: status, transport session, model,
  config, attempt counter, both timer fields and the host's pending timers are as
  before, and no call is made on the transport, so that a live connection is neither
  closed nor disturbed.
\<close>

theorem clearSession_frame:
  "sessionHandle (snd (clearSession L s)) = None \<and>
   \<not> sessionResumable (snd (clearSession L s)) \<and>
   status (snd (clearSession L s)) = status s \<and>
   session (snd (clearSession L s)) = session s \<and>
   model (snd (clearSession L s)) = model s \<and>
   config (snd (clearSession L s)) = config s \<and>
   reconnectAttempts (snd (clearSession L s)) = reconnectAttempts s \<and>
   reconnectTimeout (snd (clearSession L s)) = reconnectTimeout s \<and>
   keepAliveInterval (snd (clearSession L s)) = keepAliveInterval s \<and>
   timers (snd (clearSession L s)) = timers s \<and>
   transport (snd (clearSession L s)) = transport s \<and>
   snd (clearSession L s) =
     s\<lparr>sessionHandle := None, sessionResumable := False,
       sessionStorage := (sessionStorage s)(handle_key := None),
       localStorage := (if storageFails s then localStorage s
                        else (localStorage s)(handle_key := None)),
       emitted := emitted s @ [Log ''client.session.clear'']\<rparr>"
  by (simp add: clearSession_def andThen_def setSessionHandle_def modify_def log_def emit_def
        ret_def Let_def)

lemma pres_tryFinally: "triple I p I \<Longrightarrow> (\<And>s. I s \<Longrightarrow> I (f s)) \<Longrightarrow> triple I (tryFinally p f) I"
  by (auto simp: triple_def tryFinally_def split: prod.splits)

lemma pres_setTimer:
  "(\<And>s. I s \<Longrightarrow> I (s\<lparr>timers := timers s @ [(Suc (timerSeq s), k)], timerSeq := Suc (timerSeq s)\<rparr>))
   \<Longrightarrow> triple I (setTimer k) I"
  by (simp add: triple_def setTimer_def)

lemma pres_case_timer [pres]:
  "(\<And>v. triple I (f v) I) \<Longrightarrow> (\<And>v. triple I (g v) I) \<Longrightarrow>
   triple I (case x of ReconnectTimer v \<Rightarrow> f v | KeepAliveTimer v \<Rightarrow> g v) I"
  by (cases x) simp_all

lemma pres_case_prod [pres]:
  "(\<And>a b. triple I (f a b) I) \<Longrightarrow> triple I (case x of (a, b) \<Rightarrow> f a b) I"
  by (cases x) simp

lemma pres_Let [pres]: "(\<And>v. triple I (f v) I) \<Longrightarrow> triple I (Let x f) I"
  by (simp add: Let_def)

section \<open>Pending reconnect timers\<close>

lemma idle_owned: "timersIdle s \<Longrightarrow> timersOwned s"
  by (simp add: timersIdle_def timersOwned_def)

lemma owned_clear:
  "timersOwned s \<Longrightarrow> timersOwned (s\<lparr>timers := filter P (timers s)\<rparr>)"
  by (auto simp: timersOwned_def timersFresh_def pendingReconnects_def distinct_map_filter
        list_all_iff)

lemma cancel_idle: "triple timersOwned cancelReconnectTimer timersIdle"
  unfolding triple_def
proof (intro allI impI)
  fix s :: client
  assume o: "timersOwned s"
  show "timersIdle (snd (cancelReconnectTimer s))"
  proof (cases "reconnectTimeout s")
    case None
    with o have "pendingReconnects s = []"
      by (cases "pendingReconnects s") (simp_all add: timersOwned_def)
    with o None show ?thesis
      by (simp add: cancelReconnectTimer_def withState_def ret_def timersIdle_def
            timersOwned_def)
  next
    case (Some t)
    from o Some have "\<forall>e\<in>set (timers s). isReconnectTimer e \<longrightarrow> fst e = t"
      by (auto simp: timersOwned_def pendingReconnects_def list_all_iff)
    then have "filter isReconnectTimer (filter (\<lambda>e. fst e \<noteq> t) (timers s)) = []"
      by (auto simp: filter_empty_conv)
    with o Some show ?thesis
      by (simp add: cancelReconnectTimer_def withState_def andThen_def clearTimer_def
            modify_def ret_def timersIdle_def timersOwned_def pendingReconnects_def
            timersFresh_def distinct_map_filter list_all_iff)
  qed
qed

lemma cancel_timerSeq: "timerSeq (snd (cancelReconnectTimer s)) = timerSeq s"
  by (auto simp: cancelReconnectTimer_def withState_def andThen_def clearTimer_def modify_def
        ret_def split: option.splits)

lemma map_of_snoc_fresh:
  "k \<notin> fst ` set xs \<Longrightarrow> map_of (xs @ [(k, v)]) k = Some v"
  by (simp add: map_add_Some_iff map_of_eq_None_iff)

lemma arm_after_idle:
  assumes idle: "timersIdle s1"
      and t: "timers s2 = timers s1 @ [(Suc (timerSeq s1), ReconnectTimer d)]"
      and q: "timerSeq s2 = Suc (timerSeq s1)"
      and f: "reconnectTimeout s2 = Some (Suc (timerSeq s1))"
  shows "timersOwned s2"
    and "pendingReconnects s2 = [(Suc (timerSeq s1), ReconnectTimer d)]"
    and "map_of (timers s2) (Suc (timerSeq s1)) = Some (ReconnectTimer d)"
proof -
  from idle have fresh: "distinct (map fst (timers s1))"
    "\<forall>e\<in>set (timers s1). fst e \<le> timerSeq s1"
    and none: "filter isReconnectTimer (timers s1) = []"
    by (simp_all add: timersIdle_def timersFresh_def pendingReconnects_def list_all_iff)
  from fresh(2) have new: "Suc (timerSeq s1) \<notin> fst ` set (timers s1)"
    by auto
  show "pendingReconnects s2 = [(Suc (timerSeq s1), ReconnectTimer d)]"
    by (simp add: pendingReconnects_def t none)
  then show "timersOwned s2"
    using fresh new by (auto simp: timersOwned_def timersFresh_def t q f list_all_iff)
  show "map_of (timers s2) (Suc (timerSeq s1)) = Some (ReconnectTimer d)"
    unfolding t using new by (rule map_of_snoc_fresh)
qed

section \<open>The parts of a reconnect attempt\<close>

lemma reconnectDelay_bounds:
  assumes "1 \<le> n" "n \<le> 5" "0 \<le> r" "r < 1"
  shows "reconnectDelay n r = 1000 * 2 ^ (n - 1) + 1000 * r"
    and "1000 * 2 ^ (n - 1) \<le> reconnectDelay n r"
    and "reconnectDelay n r \<le> 1000 * 2 ^ (n - 1) + 1000"
    and "reconnectDelay n r \<le> 30000"
proof -
  from assms have n: "n = 1 \<or> n = 2 \<or> n = 3 \<or> n = 4 \<or> n = 5"
    by arith
  then have e: "reconnectDelay n r = 1000 * 2 ^ (n - 1) + 1000 * r"
    by (auto simp: reconnectDelay_def RECONNECT_MAX_DELAY_def RECONNECT_BASE_DELAY_def Let_def)
  show "reconnectDelay n r = 1000 * 2 ^ (n - 1) + 1000 * r" by (rule e)
  show "1000 * 2 ^ (n - 1) \<le> reconnectDelay n r"
    using assms by (simp add: e)
  show "reconnectDelay n r \<le> 1000 * 2 ^ (n - 1) + 1000"
    using assms by (simp add: e)
  from n assms show "reconnectDelay n r \<le> 30000"
    by (auto simp: e)
qed

lemma reconnectBegin_suspends:
  assumes logs: "\<forall>ty. \<not> L (Log ty)"
      and st: "status s = Disconnected"
      and att: "reconnectAttempts s < 5"
      and md: "model s = Some mdl" "mdl \<noteq> []"
      and cf: "config s = Some cfg"
  shows "fst (reconnectBegin L r s) = Inr ()"
    and "status (snd (reconnectBegin L r s)) = Connecting"
    and "reconnectAttempts (snd (reconnectBegin L r s)) = reconnectAttempts s"
    and "model (snd (reconnectBegin L r s)) = Some mdl"
    and "config (snd (reconnectBegin L r s)) = Some cfg"
    and "sessionHandle (snd (reconnectBegin L r s)) = sessionHandle s"
    and "sessionResumable (snd (reconnectBegin L r s)) = sessionResumable s"
    and "timerSeq (snd (reconnectBegin L r s)) = timerSeq s"
    and "reconnectTimeout (snd (reconnectBegin L r s)) = None"
    and "timers (snd (reconnectBegin L r s)) = timers (snd (cancelReconnectTimer s))"
    and "transport (snd (reconnectBegin L r s)) =
           transport s @ [OpenCall mdl cfg (if truthy (sessionHandle s) then sessionHandle s else None)]"
    and "suspended (snd (reconnectBegin L r s)) = suspended s @ [(Suc (openSeq s), AwaitReconnect)]"
    and "openSeq (snd (reconnectBegin L r s)) = Suc (openSeq s)"
  using assms
  by (simp_all add: reconnectBegin_def withState_def andThen_def tryCatch_def log_delivered
        cancelReconnectTimer_def clearTimer_def connectBegin_def openTransport_def modify_def
        ret_def Let_def MAX_RECONNECT_ATTEMPTS_def
        split: option.splits)

lemma reconnectSettle_fails:
  assumes logs: "\<forall>ty. \<not> L (Log ty)"
  shows "fst (reconnectSettle L (Inl e) r s) = Inr ()"
    and "status (snd (reconnectSettle L (Inl e) r s)) = Disconnected"
    and "reconnectAttempts (snd (reconnectSettle L (Inl e) r s)) = reconnectAttempts s + 1"
    and "model (snd (reconnectSettle L (Inl e) r s)) = model s"
    and "config (snd (reconnectSettle L (Inl e) r s)) = config s"
    and "sessionHandle (snd (reconnectSettle L (Inl e) r s)) = sessionHandle s"
    and "sessionResumable (snd (reconnectSettle L (Inl e) r s)) = sessionResumable s"
    and "timerSeq (snd (reconnectSettle L (Inl e) r s)) = Suc (timerSeq s)"
    and "reconnectTimeout (snd (reconnectSettle L (Inl e) r s)) = Some (Suc (timerSeq s))"
    and "timers (snd (reconnectSettle L (Inl e) r s)) =
           timers s @ [(Suc (timerSeq s), ReconnectTimer (reconnectDelay (reconnectAttempts s + 1) r))]"
    and "transport (snd (reconnectSettle L (Inl e) r s)) = transport s"
    and "suspended (snd (reconnectSettle L (Inl e) r s)) = suspended s"
    and "openSeq (snd (reconnectSettle L (Inl e) r s)) = openSeq s"
  using assms
  by (simp_all add: reconnectSettle_def connectSettle_def connectCatch_def reconnectCatch_def
        withState_def andThen_def tryCatch_def log_delivered modify_def raise_def ret_def
        setTimer_def Let_def)

lemma reconnectBegin_gives_up:
  assumes logs: "\<forall>ty. \<not> L (Log ty)"
      and st: "status s \<noteq> Connected"
      and att: "reconnectAttempts s \<ge> 5"
  shows "fst (reconnectBegin L r s) = Inr ()"
    and "reconnectAttempts (snd (reconnectBegin L r s)) = 0"
    and "sessionHandle (snd (reconnectBegin L r s)) = None"
    and "getSessionHandle (snd (reconnectBegin L r s)) = None"
    and "sessionResumable (snd (reconnectBegin L r s)) = sessionResumable s"
    and "status (snd (reconnectBegin L r s)) = status s"
    and "reconnectTimeout (snd (reconnectBegin L r s)) = None"
    and "timers (snd (reconnectBegin L r s)) = timers (snd (cancelReconnectTimer s))"
    and "transport (snd (reconnectBegin L r s)) = transport s"
    and "suspended (snd (reconnectBegin L r s)) = suspended s"
  using assms
  by (simp_all add: reconnectBegin_def withState_def andThen_def log_delivered
        cancelReconnectTimer_def clearTimer_def modify_def setSessionHandle_def
        ret_def Let_def MAX_RECONNECT_ATTEMPTS_def getSessionHandle_def orElse_def
        split: option.splits)

lemma fire_pending:
  assumes "map_of (timers s) t = Some (ReconnectTimer d)"
  shows "step L decode (ReconnectTimerFires t r) s =
         snd (reconnectBegin L r (s\<lparr>timers := filter (\<lambda>e. fst e \<noteq> t) (timers s)\<rparr>))"
  using assms
  by (simp add: fireReconnectTimer_def withState_def andThen_def clearTimer_def modify_def
        detached_def ret_def)

lemma settle_pending:
  assumes "map_of (suspended s) p = Some AwaitReconnect"
  shows "step L decode (OpenSettles p oc r) s =
         snd (reconnectSettle L oc r
                (s\<lparr>suspended := filter (\<lambda>e. fst e \<noteq> p) (suspended s)\<rparr>))"
  using assms
  by (simp add: openSettles_def withState_def andThen_def resumeOpen_def modify_def
        detached_def ret_def)

lemma no_pending_no_fire:
  assumes "pendingReconnects s = []"
  shows "step L decode (ReconnectTimerFires t r) s = s"
proof -
  have "\<And>d. map_of (timers s) t \<noteq> Some (ReconnectTimer d)"
  proof
    fix d
    assume "map_of (timers s) t = Some (ReconnectTimer d)"
    then have "(t, ReconnectTimer d) \<in> set (timers s)"
      by (rule map_of_SomeD)
    then have "(t, ReconnectTimer d) \<in> set (pendingReconnects s)"
      by (simp add: pendingReconnects_def)
    with assms show False by simp
  qed
  then show ?thesis
    by (auto simp: fireReconnectTimer_def withState_def ret_def
          split: option.splits timer.splits)
qed

section \<open>The retry loop, one attempt after the other\<close>

lemma attempt_fails_fields:
  fixes decode :: "string \<Rightarrow> bytes option" and e :: exn and r r0 :: real
  assumes logs: "\<forall>ty. \<not> L (Log ty)"
      and st: "status s = Disconnected"
      and att: "reconnectAttempts s < 5"
      and md: "model s = Some mdl" "mdl \<noteq> []"
      and cf: "config s = Some cfg"
      and own: "timersOwned s"
      and idle: "suspended s = []"
  defines "s2 \<equiv> step L decode (OpenSettles (Suc (openSeq s)) (Inl e) r)
                  (snd (reconnectBegin L r0 s))"
  shows "status s2 = Disconnected"
    and "reconnectAttempts s2 = Suc (reconnectAttempts s)"
    and "model s2 = Some mdl" and "config s2 = Some cfg"
    and "sessionHandle s2 = sessionHandle s"
    and "sessionResumable s2 = sessionResumable s"
    and "transport s2 = transport s @
           [OpenCall mdl cfg (if truthy (sessionHandle s) then sessionHandle s else None)]"
    and "timerSeq s2 = Suc (timerSeq s)"
    and "reconnectTimeout s2 = Some (Suc (timerSeq s))"
    and "timersOwned s2"
    and "pendingReconnects s2 =
           [(Suc (timerSeq s), ReconnectTimer (reconnectDelay (Suc (reconnectAttempts s)) r))]"
    and "map_of (timers s2) (Suc (timerSeq s)) =
           Some (ReconnectTimer (reconnectDelay (Suc (reconnectAttempts s)) r))"
    and "openSeq s2 = Suc (openSeq s)"
    and "suspended s2 = []"
proof -
  let ?s1 = "snd (reconnectBegin L r0 s)"
  let ?w = "?s1\<lparr>suspended := filter (\<lambda>e. fst e \<noteq> Suc (openSeq s)) (suspended ?s1)\<rparr>"
  note b = reconnectBegin_suspends [OF logs st att md cf, of r0]
  have "map_of (suspended ?s1) (Suc (openSeq s)) = Some AwaitReconnect"
    by (simp add: b(12) idle)
  then have s2: "s2 = snd (reconnectSettle L (Inl e) r ?w)"
    unfolding s2_def by (rule settle_pending)
  note f = reconnectSettle_fails [OF logs, of e r ?w, folded s2]
  have "timersIdle (snd (cancelReconnectTimer s))"
    using cancel_idle own by (rule tripleD)
  then have i: "timersIdle ?w"
    by (simp add: timersIdle_def timersFresh_def pendingReconnects_def b(8) b(10)
          cancel_timerSeq)
  have tw: "timerSeq ?w = timerSeq s" and aw: "reconnectAttempts ?w = reconnectAttempts s"
    by (simp_all add: b)
  have t2: "timers s2 = timers ?w @
      [(Suc (timerSeq ?w), ReconnectTimer (reconnectDelay (Suc (reconnectAttempts s)) r))]"
    using f(10) aw by simp
  have q2: "timerSeq s2 = Suc (timerSeq ?w)" using f(8) by simp
  have f2: "reconnectTimeout s2 = Some (Suc (timerSeq ?w))" using f(9) by simp
  note a = arm_after_idle [OF i t2 q2 f2]
  show "status s2 = Disconnected" by (rule f(2))
  show "reconnectAttempts s2 = Suc (reconnectAttempts s)" using f(3) aw by simp
  show "model s2 = Some mdl" using f(4) b(4) by simp
  show "config s2 = Some cfg" using f(5) b(5) by simp
  show "sessionHandle s2 = sessionHandle s" using f(6) b(6) by simp
  show "sessionResumable s2 = sessionResumable s" using f(7) b(7) by simp
  show "transport s2 = transport s @
           [OpenCall mdl cfg (if truthy (sessionHandle s) then sessionHandle s else None)]"
    using f(11) b(11) by simp
  show "timerSeq s2 = Suc (timerSeq s)" using q2 tw by simp
  show "reconnectTimeout s2 = Some (Suc (timerSeq s))" using f2 tw by simp
  show "timersOwned s2" by (rule a(1))
  show "pendingReconnects s2 =
           [(Suc (timerSeq s), ReconnectTimer (reconnectDelay (Suc (reconnectAttempts s)) r))]"
    using a(2) tw by simp
  show "map_of (timers s2) (Suc (timerSeq s)) =
           Some (ReconnectTimer (reconnectDelay (Suc (reconnectAttempts s)) r))"
    using a(3) tw by simp
  show "openSeq s2 = Suc (openSeq s)" using f(13) b(13) by simp
  show "suspended s2 = []" using f(12) b(12) idle by simp
qed

lemma retry_round:
  assumes logs: "\<forall>ty. \<not> L (Log ty)"
      and re: "retrying mdl cfg h tr tbase pbase k s"
      and k: "k < 5"
  shows "retrying mdl cfg h tr tbase pbase (Suc k)
           (step L decode (OpenSettles (Suc (pbase + k)) (Inl e) r)
              (step L decode (ReconnectTimerFires (tbase + k) r0) s))"
proof -
  let ?s1 = "s\<lparr>timers := filter (\<lambda>e. fst e \<noteq> tbase + k) (timers s)\<rparr>"
  from re obtain d where d: "map_of (timers s) (tbase + k) = Some (ReconnectTimer d)"
    by (auto simp: retrying_def)
  have stp: "step L decode (ReconnectTimerFires (tbase + k) r0) s =
             snd (reconnectBegin L r0 ?s1)"
    using d by (rule fire_pending)
  from re have own: "timersOwned ?s1"
    by (simp add: retrying_def owned_clear)
  from re k have pre: "status ?s1 = Disconnected" "reconnectAttempts ?s1 < 5"
    "model ?s1 = Some mdl" "mdl \<noteq> []" "config ?s1 = Some cfg"
    and idle: "suspended ?s1 = []"
    by (simp_all add: retrying_def)
  from re have v: "timerSeq ?s1 = tbase + k" "reconnectAttempts ?s1 = k"
    "sessionHandle ?s1 = h" "openSeq ?s1 = pbase + k"
    "transport ?s1 = tr @ replicate k (OpenCall mdl cfg (if truthy h then h else None))"
    by (simp_all add: retrying_def)
  note a = attempt_fails_fields [OF logs pre own idle, where decode = decode and e = e and r = r and ?r0.0 = r0, unfolded v]
  have t': "tr @ replicate k (OpenCall mdl cfg (if truthy h then h else None)) @
              [OpenCall mdl cfg (if truthy h then h else None)] =
            tr @ replicate (Suc k) (OpenCall mdl cfg (if truthy h then h else None))"
    by (simp only: replicate_append_same) simp
  show ?thesis
    unfolding stp retrying_def v
    using a pre(4) t' by simp
qed

lemma retry_rounds:
  assumes logs: "\<forall>ty. \<not> L (Log ty)"
  shows "retrying mdl cfg h tr tbase pbase k s \<Longrightarrow> k + length xs \<le> 5 \<Longrightarrow>
         retrying mdl cfg h tr tbase pbase (k + length xs)
           (run L decode (failedRetries (tbase + k) (Suc (pbase + k)) xs) s)"
proof (induction xs arbitrary: k s)
  case Nil
  then show ?case by (simp add: run_def)
next
  case (Cons x xs)
  obtain e r where x: "x = (e, r)" by (cases x)
  from Cons.prems have k: "k < 5" by simp
  have "retrying mdl cfg h tr tbase pbase (Suc k)
           (step L decode (OpenSettles (Suc (pbase + k)) (Inl e) r)
              (step L decode (ReconnectTimerFires (tbase + k) r) s))"
    using logs Cons.prems(1) k by (rule retry_round)
  moreover from Cons.prems have "Suc k + length xs \<le> 5" by simp
  ultimately have "retrying mdl cfg h tr tbase pbase (Suc k + length xs)
      (run L decode (failedRetries (tbase + Suc k) (Suc (pbase + Suc k)) xs)
         (step L decode (OpenSettles (Suc (pbase + k)) (Inl e) r)
            (step L decode (ReconnectTimerFires (tbase + k) r) s)))"
    by (rule Cons.IH)
  then show ?case
    by (simp add: x run_def)
qed

lemma retry_gives_up:
  assumes logs: "\<forall>ty. \<not> L (Log ty)"
      and re: "retrying mdl cfg h tr tbase pbase 5 s"
  shows "sessionHandle (step L decode (ReconnectTimerFires (tbase + 5) r) s) = None"
    and "getSessionHandle (step L decode (ReconnectTimerFires (tbase + 5) r) s) = None"
    and "reconnectAttempts (step L decode (ReconnectTimerFires (tbase + 5) r) s) = 0"
    and "pendingReconnects (step L decode (ReconnectTimerFires (tbase + 5) r) s) = []"
    and "transport (step L decode (ReconnectTimerFires (tbase + 5) r) s) = transport s"
    and "suspended (step L decode (ReconnectTimerFires (tbase + 5) r) s) = []"
    and "status (step L decode (ReconnectTimerFires (tbase + 5) r) s) = Disconnected"
    and "sessionResumable (step L decode (ReconnectTimerFires (tbase + 5) r) s) =
           sessionResumable s"
proof -
  let ?s1 = "s\<lparr>timers := filter (\<lambda>e. fst e \<noteq> tbase + 5) (timers s)\<rparr>"
  let ?s' = "snd (reconnectBegin L r ?s1)"
  from re obtain d where d: "map_of (timers s) (tbase + 5) = Some (ReconnectTimer d)"
    by (auto simp: retrying_def)
  have stp: "step L decode (ReconnectTimerFires (tbase + 5) r) s = ?s'"
    using d by (rule fire_pending)
  from re have own: "timersOwned ?s1"
    by (simp add: retrying_def owned_clear)
  from re have pre: "status ?s1 \<noteq> Connected" "reconnectAttempts ?s1 \<ge> 5"
    by (simp_all add: retrying_def)
  note g = reconnectBegin_gives_up [OF logs pre, of r]
  have "timersIdle (snd (cancelReconnectTimer ?s1))"
    using cancel_idle own by (rule tripleD)
  then have p: "pendingReconnects ?s' = []"
    by (simp add: pendingReconnects_def g(8) timersIdle_def)
  from re have "status ?s1 = Disconnected" "suspended ?s1 = []"
    by (simp_all add: retrying_def)
  with g p show
    "sessionHandle (step L decode (ReconnectTimerFires (tbase + 5) r) s) = None"
    "getSessionHandle (step L decode (ReconnectTimerFires (tbase + 5) r) s) = None"
    "reconnectAttempts (step L decode (ReconnectTimerFires (tbase + 5) r) s) = 0"
    "pendingReconnects (step L decode (ReconnectTimerFires (tbase + 5) r) s) = []"
    "transport (step L decode (ReconnectTimerFires (tbase + 5) r) s) = transport s"
    "suspended (step L decode (ReconnectTimerFires (tbase + 5) r) s) = []"
    "status (step L decode (ReconnectTimerFires (tbase + 5) r) s) = Disconnected"
    "sessionResumable (step L decode (ReconnectTimerFires (tbase + 5) r) s) =
           sessionResumable s"
    unfolding stp by simp_all
qed

section \<open>Sessions\<close>

lemmas scenario_simps =
  run_def constructor_def getSessionHandle_def orElse_def
  connectBegin_def connectSettle_def connectCatch_def openTransport_def resumeOpen_def
  openSettles_def reconnectBegin_def reconnectSettle_def reconnectCatch_def
  fireReconnectTimer_def cancelReconnectTimer_def detached_def
  withState_def andThen_def tryCatch_def tryFinally_def log_def emit_def
  modify_def ret_def raise_def onopen_def startKeepAlive_def stopKeepAlive_def setTimer_def
  clearTimer_def onmessage_def onmessageBody_def handleResumptionUpdate_def handleRest_def
  updateMessage_def setSessionHandle_def Let_def HEARTBEAT_INTERVAL_def
  onclose_def shouldReconnectOnClose_def status_name_def RECONNECT_CODES_def
  abnormalClose_def refused_def disconnect_def closeSession_def
  MAX_RECONNECT_ATTEMPTS_def reconnectDelay_def
  RECONNECT_MAX_DELAY_def RECONNECT_BASE_DELAY_def getSessionInfo_def
  pendingReconnects_def

text \<open>
  Claim C5. The claim fails where two calls of \<open>_reconnect\<close> are suspended at the same
  time: each of them, when its open fails, arms a timer in its \<open>catch\<close>, and neither
  cancels the timer that is pending then (\<open>_reconnect\<close> cancels at its start only). At
  the end of the session \<open>overlappingReconnects\<close> two reconnect timers are pending, with
  the delays 1000 and 2000 of the attempts 1 and 2 (the random draws are 0), and
  \<open>_reconnectTimeout\<close> holds the second one only.
\<close>

theorem overlapping_reconnects_two_timers:
  "pendingReconnects (run (\<lambda>e. False) exampleDecode overlappingReconnects
      (constructor Map.empty False)) = [(2, ReconnectTimer 1000), (3, ReconnectTimer 2000)] \<and>
   reconnectTimeout (run (\<lambda>e. False) exampleDecode overlappingReconnects
      (constructor Map.empty False)) = Some 3"
  by (simp add: overlappingReconnects_def scenario_simps)

text \<open>
  Claim C9, for attempts that take place one after the other. Assume that the log
  listeners do not raise. A disconnected client with the counter at 0 and no open in
  flight makes a reconnect attempt that fails, and so do the four retries that the
  timers trigger. After the first attempt and \<open>n \<le> 4\<close> of the retries the counter is
  \<open>n + 1\<close>, at most \<open>MAX_RECONNECT_ATTEMPTS\<close>. After the fifth failure the counter is at
  \<open>MAX_RECONNECT_ATTEMPTS\<close>, five transport opens have been made, the handle is still
  the stored one and one more reconnect timer is pending. When that timer fires, the
  loop gives up: the handle is cleared (also in the stores), the counter is back at 0,
  no transport open is made, no open is in flight, no reconnect timer is pending and no
  reconnect timer can fire any more. \<open>onopen\<close> resets the counter to 0, in every state.
\<close>

theorem retry_loop_gives_up:
  assumes logs: "\<forall>ty. \<not> L (Log ty)"
      and st: "status s = Disconnected"
      and att: "reconnectAttempts s = 0"
      and md: "model s = Some mdl" "mdl \<noteq> []" and cf: "config s = Some cfg"
      and own: "timersOwned s"
      and idle: "suspended s = []"
      and len: "length xs = 4"
      and n: "n \<le> 4"
  shows "(let s0 = step L decode (OpenSettles (Suc (openSeq s)) (Inl e) r)
                     (snd (reconnectBegin L r0 s));
              sn = run L decode
                     (failedRetries (Suc (timerSeq s)) (Suc (Suc (openSeq s))) (take n xs)) s0;
              s5 = run L decode
                     (failedRetries (Suc (timerSeq s)) (Suc (Suc (openSeq s))) xs) s0;
              s6 = step L decode (ReconnectTimerFires (timerSeq s + 5) r') s5
          in reconnectAttempts sn = Suc n \<and>
             reconnectAttempts sn \<le> MAX_RECONNECT_ATTEMPTS \<and>
             reconnectAttempts s5 = MAX_RECONNECT_ATTEMPTS \<and>
             sessionHandle s5 = sessionHandle s \<and>
             transport s5 = transport s @ replicate 5
               (OpenCall mdl cfg (if truthy (sessionHandle s) then sessionHandle s else None)) \<and>
             (\<exists>d. pendingReconnects s5 = [(timerSeq s + 5, ReconnectTimer d)]) \<and>
             sessionHandle s6 = None \<and> getSessionHandle s6 = None \<and>
             reconnectAttempts s6 = 0 \<and> pendingReconnects s6 = [] \<and>
             transport s6 = transport s5 \<and> suspended s6 = [] \<and>
             (\<forall>t r2. step L decode (ReconnectTimerFires t r2) s6 = s6)) \<and>
         reconnectAttempts (snd (onopen L' s')) = 0"
proof -
  let ?h = "sessionHandle s"
  let ?s0 = "step L decode (OpenSettles (Suc (openSeq s)) (Inl e) r)
               (snd (reconnectBegin L r0 s))"
  let ?sn = "run L decode
               (failedRetries (Suc (timerSeq s)) (Suc (Suc (openSeq s))) (take n xs)) ?s0"
  let ?s5 = "run L decode
               (failedRetries (Suc (timerSeq s)) (Suc (Suc (openSeq s))) xs) ?s0"
  let ?s6 = "step L decode (ReconnectTimerFires (timerSeq s + 5) r') ?s5"
  from att have att5: "reconnectAttempts s < 5" by simp
  note a = attempt_fails_fields [OF logs st att5 md cf own idle,
      where decode = decode and e = e and r = r and ?r0.0 = r0]
  have r1: "retrying mdl cfg ?h (transport s) (timerSeq s) (openSeq s) 1 ?s0"
    unfolding retrying_def using a att md by auto
  have "retrying mdl cfg ?h (transport s) (timerSeq s) (openSeq s) (1 + length (take n xs))
          (run L decode (failedRetries (timerSeq s + 1) (Suc (openSeq s + 1)) (take n xs)) ?s0)"
    using logs r1 by (rule retry_rounds) (simp add: len)
  then have rn: "retrying mdl cfg ?h (transport s) (timerSeq s) (openSeq s) (Suc n) ?sn"
    using n by (simp add: len min_def)
  have "retrying mdl cfg ?h (transport s) (timerSeq s) (openSeq s) (1 + length xs)
          (run L decode (failedRetries (timerSeq s + 1) (Suc (openSeq s + 1)) xs) ?s0)"
    using logs r1 by (rule retry_rounds) (simp add: len)
  then have r5: "retrying mdl cfg ?h (transport s) (timerSeq s) (openSeq s) 5 ?s5"
    by (simp add: len)
  note g = retry_gives_up [OF logs r5, of decode r']
  have quiet: "\<forall>t r2. step L decode (ReconnectTimerFires t r2) ?s6 = ?s6"
    by (intro allI no_pending_no_fire g(4))
  have o: "reconnectAttempts (snd (onopen L' s')) = 0"
    by (simp add: onopen_def andThen_def modify_def startKeepAlive_def stopKeepAlive_def
          withState_def clearTimer_def setTimer_def emit_def log_def ret_def
          split: option.splits)
  from rn have cn: "reconnectAttempts ?sn = Suc n"
    by (simp add: retrying_def)
  from r5 have c5: "reconnectAttempts ?s5 = 5" "sessionHandle ?s5 = ?h"
    "transport ?s5 = transport s @ replicate 5
               (OpenCall mdl cfg (if truthy ?h then ?h else None))"
    "\<exists>d. pendingReconnects ?s5 = [(timerSeq s + 5, ReconnectTimer d)]"
    by (auto simp: retrying_def)
  from cn n c5 g(1-6) quiet o show ?thesis
    unfolding Let_def MAX_RECONNECT_ATTEMPTS_def
    by (intro conjI) simp_all
qed

theorem retry_loop_gives_up_witness:
  "sessionHandle retryClient = Some ''H1'' \<and>
   reconnectAttempts
     (run (\<lambda>e. False) exampleDecode
        (failedRetries 1 2 (take 2 (replicate 4 (TransportError ''refused'', 0))))
        (step (\<lambda>e. False) exampleDecode (OpenSettles 1 refused 0)
           (snd (reconnectBegin (\<lambda>e. False) 0 retryClient)))) = 3 \<and>
   reconnectAttempts
     (run (\<lambda>e. False) exampleDecode
        (failedRetries 1 2 (replicate 4 (TransportError ''refused'', 0)))
        (step (\<lambda>e. False) exampleDecode (OpenSettles 1 refused 0)
           (snd (reconnectBegin (\<lambda>e. False) 0 retryClient)))) = 5 \<and>
   sessionHandle
     (run (\<lambda>e. False) exampleDecode
        (failedRetries 1 2 (replicate 4 (TransportError ''refused'', 0)))
        (step (\<lambda>e. False) exampleDecode (OpenSettles 1 refused 0)
           (snd (reconnectBegin (\<lambda>e. False) 0 retryClient)))) = Some ''H1'' \<and>
   sessionHandle
     (step (\<lambda>e. False) exampleDecode (ReconnectTimerFires 5 0)
        (run (\<lambda>e. False) exampleDecode
           (failedRetries 1 2 (replicate 4 (TransportError ''refused'', 0)))
           (step (\<lambda>e. False) exampleDecode (OpenSettles 1 refused 0)
              (snd (reconnectBegin (\<lambda>e. False) 0 retryClient))))) = None"
proof -
  have c: "status retryClient = Disconnected" "reconnectAttempts retryClient = 0"
    "model retryClient = Some ''gemini-live''" "config retryClient = Some ''{}''"
    "timerSeq retryClient = 0" "timersOwned retryClient"
    "sessionHandle retryClient = Some ''H1''" "suspended retryClient = []"
    "openSeq retryClient = 0"
    by (simp_all add: retryClient_def resumableClient_def exampleClient_def constructor_def
          Let_def timersOwned_def timersFresh_def pendingReconnects_def)
  have logs: "\<forall>ty. \<not> (\<lambda>e. False) (Log ty)" by simp
  have m: "''gemini-live'' \<noteq> []" by simp
  have len: "length (replicate 4 (TransportError ''refused'', 0::real)) = 4" by simp
  have n: "(2::nat) \<le> 4" by simp
  from retry_loop_gives_up
    [where L = "\<lambda>e. False" and s = retryClient and mdl = "''gemini-live''" and cfg = "''{}''"
       and xs = "replicate 4 (TransportError ''refused'', 0)" and decode = exampleDecode
       and e = "TransportError ''refused''" and r = 0 and ?r0.0 = 0 and r' = 0 and n = 2,
     OF logs c(1) c(2) c(3) m c(4) c(6) c(8) len n] c
  show ?thesis
    by (simp add: Let_def refused_def MAX_RECONNECT_ATTEMPTS_def numeral_2_eq_2)
qed

text \<open>
  The fifth failure itself does not give up: at the end of the session \<open>fiveFailures\<close>
  the handle \<open>H1\<close> is still stored, the counter is at 5 and a sixth timer is pending.
  And the counter can pass \<open>MAX_RECONNECT_ATTEMPTS\<close>: the test of the ceiling is made
  before the open and the increment after it, so that two calls of \<open>_reconnect\<close>
  suspended with the counter at 4 bring it to 6 (\<open>overlappingAtFour\<close>).
\<close>

theorem five_failures_then_give_up:
  "getSessionInfo (run (\<lambda>e. False) exampleDecode fiveFailures
      (constructor Map.empty False)) = (Some ''H1'', True, Disconnected, 5) \<and>
   pendingReconnects (run (\<lambda>e. False) exampleDecode fiveFailures
      (constructor Map.empty False)) = [(6, ReconnectTimer 16000)] \<and>
   reconnectAttempts (run (\<lambda>e. False) exampleDecode overlappingAtFour
      (constructor Map.empty False)) = 6"
  by (simp add: fiveFailures_def overlappingAtFour_def scenario_simps)

text \<open>
  Claim C2. The claim fails where the retry loop gives up: \<open>_reconnect\<close> clears the handle
  and leaves the resumability flag as it is. In the session \<open>giveUpScenario\<close> the client
  is connected with handle \<open>H1\<close> and the flag set after its first four steps, and at
  the end \<open>getSessionInfo\<close> reports no handle with the flag still set.
\<close>

theorem giveup_leaves_resumable_flag:
  "getSessionInfo (run (\<lambda>e. False) exampleDecode (take 4 giveUpScenario)
      (constructor Map.empty False)) = (Some ''H1'', True, Connected, 0) \<and>
   getSessionInfo (run (\<lambda>e. False) exampleDecode giveUpScenario
      (constructor Map.empty False)) = (None, True, Disconnected, 0)"
  by (simp add: giveUpScenario_def fiveFailures_def scenario_simps)

end
